theory Spec2Isabelle
  imports Complex_Main "HOL-Library.Word"
begin

unbundle bit_operations_syntax

section \<open>Data model of Arduino\_BMS\_4S-v1.ino\<close>

text \<open>
  The sketch runs on an Arduino Uno (AVR): \<open>byte\<close> is an unsigned 8-bit integer,
  \<open>char\<close> a signed 8-bit integer, \<open>int\<close> a signed and \<open>unsigned int\<close> an unsigned
  16-bit integer, \<open>unsigned long\<close> an unsigned 32-bit integer. They are words of that
  width here; \<open>sint\<close> reads the signed ones. Arithmetic on \<open>int\<close> wraps around
  modulo \<open>2 ^ 16\<close>, as the AVR code does.

  A \<open>float\<close> is modelled by an exact \<open>real\<close>: every statement below about voltages,
  calibration factors and thresholds is a statement of exact arithmetic, with no rounding.
\<close>

type_synonym byte = "8 word"
type_synonym cchar = "8 word"
type_synonym cint = "16 word"
type_synonym uint = "16 word"
type_synonym ulong = "32 word"

text \<open>What one pass of \<open>loop\<close> reads from the hardware: \<open>millis()\<close>, the analog
  inputs and the digital inputs, each by pin number.\<close>

record tick_in =
  millis :: ulong
  analogRead :: "nat \<Rightarrow> int"
  digitalRead :: "nat \<Rightarrow> bool"

text \<open>The global variables of the sketch, the \<open>static\<close> locals of \<open>loop\<close>, and the
  hardware the sketch writes: the EEPROM, the digital outputs, the PWM output, the number
  of \<open>tone\<close> calls on the buzzer and the lines printed by \<^verbatim>\<open>setup\<close> and
  \<open>serialEvent\<close>.\<close>

record bms =
  cellModel :: bool
  cellNumber :: byte
  Vmax :: "real list"
  Vmin :: "real list"
  Vcalibration :: "real list"
  Valim :: real
  Vcell :: "real list"
  memo_Vcell :: "real list"
  runOnce :: bool
  pwm :: byte
  index :: byte
  consoleInput :: "cchar list"
  whatToDisplay :: cchar
  Imax :: bool
  memo_Urc :: bool
  memo_Drc :: bool
  memo_Crc :: bool
  VcellCumul :: "real list"
  analogReadsCount :: uint
  buzzerON :: bool
  oneMinute :: bool
  counter :: byte
  memo_tempo_shuntON :: ulong
  memo_tempo :: ulong
  memo_tempo_tendancy :: ulong
  eeprom :: "nat \<Rightarrow> byte"
  dout :: "nat \<Rightarrow> bool"
  pwm_out :: byte
  tones :: nat
  printed :: "string list"

text \<open>Hardware connexion.\<close>

definition VcellPin :: "nat \<Rightarrow> nat" where
  "VcellPin i = [0, 1, 2, 3] ! i"

definition shuntPin :: "nat \<Rightarrow> nat" where
  "shuntPin i = [2, 3, 4, 5] ! i"

definition ImaxPin :: nat where "ImaxPin = 6"
definition buzzerPin :: nat where "buzzerPin = 7"
definition pwmPin :: nat where "pwmPin = 9"
definition UrcPin :: nat where "UrcPin = 10"
definition DrcPin :: nat where "DrcPin = 11"
definition CrcPin :: nat where "CrcPin = 12"
definition enablePin :: nat where "enablePin = 13"

text \<open>The initialisers of the globals and statics (uninitialised globals are zero), on a
  device whose EEPROM holds \<open>rom\<close>.\<close>

definition power_on :: "(nat \<Rightarrow> byte) \<Rightarrow> bms" where
  "power_on rom = \<lparr>
     cellModel = False, cellNumber = 4,
     Vmax = [4.2, 3.7], Vmin = [3.6, 3.2],
     Vcalibration = [1.0, 1.0, 1.0, 1.0],
     Valim = 0, Vcell = [4.9, 4.9, 4.9, 4.9], memo_Vcell = [0, 0, 0, 0],
     runOnce = True, pwm = 0, index = 0, consoleInput = replicate 7 0,
     whatToDisplay = of_char (CHR ''A''), Imax = False,
     memo_Urc = False, memo_Drc = False, memo_Crc = False,
     VcellCumul = [0, 0, 0, 0], analogReadsCount = 0,
     buzzerON = False, oneMinute = False, counter = 0,
     memo_tempo_shuntON = 0, memo_tempo = 0, memo_tempo_tendancy = 0,
     eeprom = rom, dout = (\<lambda>_. False), pwm_out = 0, tones = 0, printed = [] \<rparr>"

section \<open>Hardware writes\<close>

definition digitalWrite :: "nat \<Rightarrow> bool \<Rightarrow> bms \<Rightarrow> bms" where
  "digitalWrite p v s = s\<lparr>dout := (dout s)(p := v)\<rparr>"

definition analogWrite :: "byte \<Rightarrow> bms \<Rightarrow> bms" where
  "analogWrite v s = s\<lparr>pwm_out := v\<rparr>"

definition tone :: "bms \<Rightarrow> bms" where
  "tone s = s\<lparr>tones := Suc (tones s)\<rparr>"

definition println :: "string \<Rightarrow> bms \<Rightarrow> bms" where
  "println msg s = s\<lparr>printed := printed s @ [msg]\<rparr>"

text \<open>\<open>Vmax[cellModel]\<close>: a \<open>bool\<close> used as an index is 0 or 1.\<close>

definition model_index :: "bms \<Rightarrow> nat" where
  "model_index s = (if cellModel s then 1 else 0)"

section \<open>Configuration from the binary rotary contactor (lines 247--266)\<close>

definition RotactorConfig :: "tick_in \<Rightarrow> bms \<Rightarrow> bms" where
  "RotactorConfig inp s =
     (let Urc = digitalRead inp UrcPin;
          Drc = digitalRead inp DrcPin;
          Crc = digitalRead inp CrcPin;
          s1 = (if Crc then s\<lparr>cellModel := True\<rparr> else s\<lparr>cellModel := False\<rparr>);
          s2 = (if Urc
                then (if Drc then s1\<lparr>cellNumber := 4\<rparr> else s1\<lparr>cellNumber := 2\<rparr>)
                else (if Drc then s1\<lparr>cellNumber := 3\<rparr> else s1\<lparr>cellNumber := 1\<rparr>));
          s3 = (if Urc \<noteq> memo_Urc s2 \<or> Drc \<noteq> memo_Drc s2 \<or> Crc \<noteq> memo_Crc s2
                then s2\<lparr>runOnce := True\<rparr> else s2)
      in s3\<lparr>memo_Urc := Urc, memo_Drc := Drc, memo_Crc := Crc\<rparr>)"

section \<open>The control loop\<close>

subsection \<open>Re-settle block, run while \<open>runOnce\<close> is set (lines 153--168)\<close>

definition loop_resettle :: "ulong \<Rightarrow> bms \<Rightarrow> bms" where
  "loop_resettle tempo s =
     (let s1 = s\<lparr>buzzerON := False\<rparr>;
          s2 = fold (\<lambda>i. digitalWrite (shuntPin i) True) [unat (cellNumber s1)..<4] s1
      in if counter s2 > 5 then s2\<lparr>counter := 0, runOnce := False\<rparr>
         else if tempo - memo_tempo_shuntON s2 > 300
         then (let s3 = s2\<lparr>memo_tempo_shuntON := tempo, counter := counter s2 + 1\<rparr>;
                   s4 = fold (\<lambda>i. digitalWrite (shuntPin i) True) [0..<unat (cellNumber s3)] s3
               in fold (\<lambda>i. digitalWrite (shuntPin i) False) [0..<unat (cellNumber s4)] s4)
         else s2)"

subsection \<open>Analog sampler (lines 173--178)\<close>

definition loop_sample :: "tick_in \<Rightarrow> bms \<Rightarrow> bms" where
  "loop_sample inp s =
     (let s1 = fold (\<lambda>i t. t\<lparr>VcellCumul :=
                 (VcellCumul t)[i := VcellCumul t ! i + real_of_int (analogRead inp (VcellPin i))]\<rparr>)
               [0..<4] s
      in s1\<lparr>Imax := \<not> digitalRead inp ImaxPin\<rparr>)"

subsection \<open>Charge current regulator (lines 183--188)\<close>

text \<open>
  \<^verbatim>\<open>if( Imax || ( Vcell[0] < 4.9)) { if( pwm > 0 ) pwm--; }
  else if( pwm < 255 ) pwm++;
  analogWrite( pwmPin, pwm );\<close>
\<close>

definition loop_regulate :: "bms \<Rightarrow> bms" where
  "loop_regulate s =
     (let s1 = (if Imax s \<or> Vcell s ! 0 < 4.9
                then (if pwm s > 0 then s\<lparr>pwm := pwm s - 1\<rparr> else s)
                else (if pwm s < 255 then s\<lparr>pwm := pwm s + 1\<rparr> else s))
      in analogWrite (pwm s1) s1)"

subsection \<open>Voltage resolver (lines 196--204)\<close>

text \<open>
  \<^verbatim>\<open>Vcell[i] = (VcellCumul[i] / (float)analogReadsCount / 1023.0) * 5.0 * Vcalibration[i] * (i+1);
  VcellCumul[i] = 0;\<close>

  The counter is at least 1 here unless it has wrapped around to 0, which no execution
  from power-on reaches (\<open>window_never_fills\<close> below).
\<close>

definition resolve_node :: "nat \<Rightarrow> bms \<Rightarrow> bms" where
  "resolve_node i s =
     s\<lparr>Vcell := (Vcell s)[i :=
          (VcellCumul s ! i / real (unat (analogReadsCount s)) / 1023.0) * 5.0
            * Vcalibration s ! i * real (i + 1)],
       VcellCumul := (VcellCumul s)[i := 0]\<rparr>"

text \<open>\<^verbatim>\<open>Vcell[i] -= Vcell[i-1];\<close>\<close>

definition difference_node :: "nat \<Rightarrow> bms \<Rightarrow> bms" where
  "difference_node i s = s\<lparr>Vcell := (Vcell s)[i := Vcell s ! i - Vcell s ! (i - 1)]\<rparr>"

text \<open>\<^verbatim>\<open>Valim = Vcell[3]; for( byte i=3; i>0; i-- ) Vcell[i] -= Vcell[i-1];\<close>\<close>

definition loop_difference :: "bms \<Rightarrow> bms" where
  "loop_difference s = fold difference_node (rev [1..<4]) (s\<lparr>Valim := Vcell s ! 3\<rparr>)"

definition loop_resolve :: "bms \<Rightarrow> bms" where
  "loop_resolve s =
     (let s1 = fold resolve_node [0..<4] s;
          s2 = s1\<lparr>analogReadsCount := 0\<rparr>
      in loop_difference s2)"

subsection \<open>Balancing and undervoltage check (lines 213--217)\<close>

definition check_cell :: "nat \<Rightarrow> bms \<Rightarrow> bms" where
  "check_cell i s =
     (if Vcell s ! i > Vmax s ! model_index s then digitalWrite (shuntPin i) True s
      else if oneMinute s \<and> Vcell s ! i < Vmin s ! model_index s then s\<lparr>buzzerON := True\<rparr>
      else s)"

definition loop_balance :: "bms \<Rightarrow> bms" where
  "loop_balance s =
     (let s1 = fold check_cell [0..<4] s
      in if buzzerON s1 then tone s1 else s1)"

subsection \<open>One pass of \<open>loop\<close>\<close>

text \<open>\<^verbatim>\<open>for( byte i=0; i<4; i++ ) memo_Vcell[i] = Vcell[i]; oneMinute = true; runOnce = true;\<close>\<close>

definition loop_minute :: "ulong \<Rightarrow> bms \<Rightarrow> bms" where
  "loop_minute tempo s =
     (let s1 = s\<lparr>memo_tempo_tendancy := tempo\<rparr>;
          s2 = fold (\<lambda>i t. t\<lparr>memo_Vcell := (memo_Vcell t)[i := Vcell t ! i]\<rparr>) [0..<4] s1
      in s2\<lparr>oneMinute := True, runOnce := True\<rparr>)"

text \<open>
  \<open>ConsoleDisplay\<close> and \<open>OledDisplay\<close> write to the console and the display and to no
  variable of the sketch; what they show is left out. The three \<open>return\<close> statements of
  \<open>loop\<close> are the three \<open>then\<close> branches.
\<close>

definition loop :: "tick_in \<Rightarrow> bms \<Rightarrow> bms" where
  "loop inp s =
     (let tempo = millis inp;
          s1 = (if runOnce s then loop_resettle tempo s else s);
          s2 = loop_sample inp s1;
          s3 = loop_regulate s2;
          s4 = s3\<lparr>analogReadsCount := analogReadsCount s3 + 1\<rparr>
      in if analogReadsCount s4 > 100 then s4
         else (let s5 = loop_resolve s4
               in if tempo - memo_tempo s5 < 1000 then s5
                  else (let s6 = loop_balance (s5\<lparr>memo_tempo := tempo\<rparr>);
                            s7 = RotactorConfig inp s6
                        in if tempo - memo_tempo_tendancy s7 < 60000 then s7
                           else loop_minute tempo s7)))"

section \<open>Calibration store\<close>

text \<open>
  A \<open>float\<close> converted to an integer type is truncated towards zero. C leaves the
  conversion undefined when the truncated value does not fit the target type; here it
  keeps the low bits, as a conversion through a wider integer does.
\<close>

definition c_trunc :: "real \<Rightarrow> int" where
  "c_trunc x = (if 0 \<le> x then \<lfloor>x\<rfloor> else \<lceil>x\<rceil>)"

definition float_to_int :: "real \<Rightarrow> cint" where
  "float_to_int x = word_of_int (c_trunc x)"

definition float_to_byte :: "real \<Rightarrow> byte" where
  "float_to_byte x = word_of_int (c_trunc x)"

definition highByte :: "cint \<Rightarrow> byte" where
  "highByte w = ucast (drop_bit 8 w)"

definition lowByte :: "cint \<Rightarrow> byte" where
  "lowByte w = ucast (w AND 0xff)"

definition EEPROM_read :: "nat \<Rightarrow> bms \<Rightarrow> byte" where
  "EEPROM_read a s = eeprom s a"

definition EEPROM_update :: "nat \<Rightarrow> byte \<Rightarrow> bms \<Rightarrow> bms" where
  "EEPROM_update a v s = s\<lparr>eeprom := (eeprom s)(a := v)\<rparr>"

text \<open>\<^verbatim>\<open>int var = (EEPROM.read(2*i) << 8) + EEPROM.read((2*i)+1);\<close>\<close>

definition calibration_word :: "byte \<Rightarrow> byte \<Rightarrow> cint" where
  "calibration_word hi lo = push_bit 8 (ucast hi) + ucast lo"

text \<open>\<^verbatim>\<open>Vcalibration[i] = var/1000.0;\<close>\<close>

definition calibration_decode :: "byte \<Rightarrow> byte \<Rightarrow> real" where
  "calibration_decode hi lo = real_of_int (sint (calibration_word hi lo)) / 1000.0"

text \<open>\<^verbatim>\<open>(EEPROM.read(8)+300)/100.0\<close>\<close>

definition threshold_decode :: "byte \<Rightarrow> real" where
  "threshold_decode b = real_of_int (uint b + 300) / 100.0"

text \<open>\<^verbatim>\<open>int var = 1000*Vcalibration[i];\<close>\<close>

definition calibration_encode :: "real \<Rightarrow> cint" where
  "calibration_encode x = float_to_int (1000 * x)"

text \<open>\<^verbatim>\<open>EEPROM.update(8, ((Vmax[0]*100.0)-300));\<close>\<close>

definition threshold_encode :: "real \<Rightarrow> byte" where
  "threshold_encode v = float_to_byte ((v * 100.0) - 300)"

definition EEPROM_Get :: "bms \<Rightarrow> bms" where
  "EEPROM_Get s =
     (let s1 = fold (\<lambda>i t. t\<lparr>Vcalibration := (Vcalibration t)[i :=
                 calibration_decode (EEPROM_read (2 * i) t) (EEPROM_read ((2 * i) + 1) t)]\<rparr>)
               [0..<4] s;
          s2 = s1\<lparr>Vmax := (Vmax s1)[0 := threshold_decode (EEPROM_read 8 s1)]\<rparr>;
          s3 = s2\<lparr>Vmax := (Vmax s2)[1 := threshold_decode (EEPROM_read 9 s2)]\<rparr>;
          s4 = s3\<lparr>Vmin := (Vmin s3)[0 := threshold_decode (EEPROM_read 10 s3)]\<rparr>
      in s4\<lparr>Vmin := (Vmin s4)[1 := threshold_decode (EEPROM_read 11 s4)]\<rparr>)"

definition EEPROM_Update :: "bms \<Rightarrow> bms" where
  "EEPROM_Update s =
     (let s1 = fold (\<lambda>i t. let var = calibration_encode (Vcalibration t ! i)
                           in EEPROM_update ((2 * i) + 1) (lowByte var)
                                (EEPROM_update (2 * i) (highByte var) t))
               [0..<4] s;
          s2 = EEPROM_update 8 (threshold_encode (Vmax s1 ! 0)) s1;
          s3 = EEPROM_update 9 (threshold_encode (Vmax s2 ! 1)) s2;
          s4 = EEPROM_update 10 (threshold_encode (Vmin s3 ! 0)) s3
      in EEPROM_update 11 (threshold_encode (Vmin s4 ! 1)) s4)"

section \<open>Console input\<close>

text \<open>
  A write outside an array is undefined in C. The model stops there with a fault:
  \<open>ConsoleInputOverrun\<close> for a write outside the seven elements of \<open>consoleInput\<close>,
  \<open>CalibrationIndexOutOfRange\<close> for a write outside the four of \<open>Vcalibration\<close>.
\<close>

datatype fault = ConsoleInputOverrun | CalibrationIndexOutOfRange

text \<open>A \<open>char\<close> in an arithmetic expression is promoted to \<open>int\<close>, keeping its sign.\<close>

definition digit :: "bms \<Rightarrow> nat \<Rightarrow> cint" where
  "digit s k = scast (consoleInput s ! k) - 48"

text \<open>
  \<^verbatim>\<open>val = (consoleInput[5]-48)+(10*(consoleInput[4]-48))+(100*(consoleInput[3]-48))+(1000*(consoleInput[2]-48));\<close>
\<close>

definition val4 :: "bms \<Rightarrow> cint" where
  "val4 s = digit s 5 + (10 * digit s 4) + (100 * digit s 3) + (1000 * digit s 2)"

text \<open>
  \<^verbatim>\<open>val = (consoleInput[4]-48)+(10*(consoleInput[3]-48))+(100*(consoleInput[2]-48));\<close>
\<close>

definition val3 :: "bms \<Rightarrow> cint" where
  "val3 s = digit s 4 + (10 * digit s 3) + (100 * digit s 2)"

definition is_char :: "cchar \<Rightarrow> char \<Rightarrow> bool" where
  "is_char c k = (c = of_char k)"

text \<open>The \<open>'B'\<close> case of the \<open>switch\<close> (lines 420--426).\<close>

definition command_B :: "bms \<Rightarrow> fault + bms" where
  "command_B s =
     (let s1 = s\<lparr>whatToDisplay := of_char (CHR ''B'')\<rparr>;
          val = val4 s1;
          cell = sint (consoleInput s1 ! 1) - 49
      in if cell > uint (cellNumber s1) then Inr (println ''cell number out of range'' s1)
         else if sint val < 800 \<or> sint val > 1200
         then Inr (println ''Calibration value out of range'' s1)
         else if 0 \<le> cell \<and> cell < 4
         then Inr (s1\<lparr>Vcalibration := (Vcalibration s1)[nat cell := real_of_int (sint val) / 1000.0]\<rparr>)
         else Inl CalibrationIndexOutOfRange)"

text \<open>The \<open>'L'\<close> case (lines 428--437).\<close>

definition command_L :: "bms \<Rightarrow> bms" where
  "command_L s =
     (let s1 = s\<lparr>whatToDisplay := of_char (CHR ''L'')\<rparr>;
          val = val3 s1
      in if sint val < 270 \<or> sint val > 460 then println ''cell voltage value out of range'' s1
         else if is_char (consoleInput s1 ! 1) CHR ''t'' \<or> is_char (consoleInput s1 ! 1) CHR ''T''
         then s1\<lparr>Vmin := (Vmin s1)[0 := real_of_int (sint val) / 100.0]\<rparr>
         else if is_char (consoleInput s1 ! 1) CHR ''f'' \<or> is_char (consoleInput s1 ! 1) CHR ''F''
         then s1\<lparr>Vmin := (Vmin s1)[1 := real_of_int (sint val) / 100.0]\<rparr>
         else println ''unrecognised cells model'' s1)"

text \<open>The \<open>'H'\<close> case (lines 439--448).\<close>

definition command_H :: "bms \<Rightarrow> bms" where
  "command_H s =
     (let s1 = s\<lparr>whatToDisplay := of_char (CHR ''H'')\<rparr>;
          val = val3 s1
      in if sint val < 270 \<or> sint val > 460 then println ''cell voltage value out of range'' s1
         else if is_char (consoleInput s1 ! 1) CHR ''t'' \<or> is_char (consoleInput s1 ! 1) CHR ''T''
         then s1\<lparr>Vmax := (Vmax s1)[0 := real_of_int (sint val) / 100.0]\<rparr>
         else if is_char (consoleInput s1 ! 1) CHR ''f'' \<or> is_char (consoleInput s1 ! 1) CHR ''F''
         then s1\<lparr>Vmax := (Vmax s1)[1 := real_of_int (sint val) / 100.0]\<rparr>
         else println ''unrecognised cells model'' s1)"

text \<open>The \<open>switch\<close> on \<open>consoleInput[0]\<close> (lines 418--464).\<close>

definition command :: "bms \<Rightarrow> fault + bms" where
  "command s =
     (let c = consoleInput s ! 0
      in if is_char c CHR ''b'' \<or> is_char c CHR ''B'' then command_B s
         else if is_char c CHR ''l'' \<or> is_char c CHR ''L'' then Inr (command_L s)
         else if is_char c CHR ''h'' \<or> is_char c CHR ''H'' then Inr (command_H s)
         else if is_char c CHR ''e'' \<or> is_char c CHR ''E''
         then Inr (EEPROM_Get (println ''cancel all changes!''
                     (s\<lparr>whatToDisplay := of_char (CHR ''A'')\<rparr>)))
         else if is_char c CHR ''s'' \<or> is_char c CHR ''S''
         then Inr (EEPROM_Update (println ''all data saved!''
                     (s\<lparr>whatToDisplay := of_char (CHR ''A'')\<rparr>)))
         else Inr (println ''unrecognised command'' (s\<lparr>whatToDisplay := of_char (CHR ''A'')\<rparr>)))"

definition newline :: cchar where
  "newline = 10"

text \<open>
  \<open>serialEvent\<close>, called with the byte \<open>Serial.read()\<close> returns, or with \<open>None\<close> when
  \<open>Serial.available()\<close> is zero.
\<close>

definition serialEvent :: "cchar option \<Rightarrow> bms \<Rightarrow> fault + bms" where
  "serialEvent rx s =
     (case rx of
        None \<Rightarrow> Inr s
      | Some incomingChar \<Rightarrow>
          if incomingChar \<noteq> newline
          then (if unat (index s) < 7
                then Inr (s\<lparr>consoleInput := (consoleInput s)[unat (index s) := incomingChar],
                            index := index s + 1\<rparr>)
                else Inl ConsoleInputOverrun)
          else (if unat (index s) < 7
                then command (s\<lparr>consoleInput := (consoleInput s)[unat (index s) := 0],
                                index := 0\<rparr>)
                else Inl ConsoleInputOverrun))"

text \<open>\<open>serialEvent\<close> called once for each byte of a stream, stopping at a fault.\<close>

fun serialEvents :: "cchar list \<Rightarrow> bms \<Rightarrow> fault + bms" where
  "serialEvents [] s = Inr s"
| "serialEvents (c # cs) s =
     (case serialEvent (Some c) s of Inl f \<Rightarrow> Inl f | Inr s' \<Rightarrow> serialEvents cs s')"

section \<open>The sketch as a whole\<close>

definition FIRST_USE :: bool where
  "FIRST_USE = False"

text \<open>The function \<^verbatim>\<open>setup\<close> of the sketch (the name is a keyword here); \<open>pinMode\<close>,
  the display and the timer register have no part in the model.\<close>

definition sketch_setup :: "tick_in \<Rightarrow> bms \<Rightarrow> bms" where
  "sketch_setup inp s =
     (let s1 = digitalWrite enablePin False s;
          s2 = fold (\<lambda>i. digitalWrite (shuntPin i) False) [0..<4] s1;
          s3 = analogWrite 0 s2;
          s4 = println ''Starting....'' s3;
          s5 = (if FIRST_USE then EEPROM_Update s4 else EEPROM_Get s4);
          s6 = RotactorConfig inp s5
      in digitalWrite enablePin True s6)"

text \<open>
  After that the Arduino core calls \<open>loop\<close> again and again, and \<open>serialEvent\<close>
  between two passes when a byte has arrived. An execution is a list of such events.
\<close>

datatype event = Pass tick_in | Rx cchar

fun run :: "event list \<Rightarrow> bms \<Rightarrow> fault + bms" where
  "run [] s = Inr s"
| "run (Pass inp # es) s = run es (loop inp s)"
| "run (Rx c # es) s =
     (case serialEvent (Some c) s of Inl f \<Rightarrow> Inl f | Inr s' \<Rightarrow> run es s')"

section \<open>Example executions\<close>

text \<open>
  An EEPROM that holds the defaults of the sketch as \<open>EEPROM_Update\<close> writes them
  (calibration 1000 as the bytes 3 and 232; 4.2, 3.7, 3.6 and 3.2 V as 120, 70, 60 and 20),
  and blank cells (255) above them.
\<close>

definition saved_defaults :: "nat \<Rightarrow> byte" where
  "saved_defaults a =
     (if a < 12 then [3, 232, 3, 232, 3, 232, 3, 232, 120, 70, 60, 20] ! a else 255)"

text \<open>
  A pass of \<open>loop\<close> at time \<open>t\<close> in which every analog input reads \<open>r\<close>, the
  overcurrent input is inactive (high) and the selector reads four cells, Li-ion.
\<close>

definition pass_at :: "ulong \<Rightarrow> int \<Rightarrow> tick_in" where
  "pass_at t r = \<lparr>millis = t, analogRead = (\<lambda>_. r), digitalRead = (\<lambda>p. p \<noteq> CrcPin)\<rparr>"

definition booted :: bms where
  "booted = sketch_setup (pass_at 0 600) (power_on saved_defaults)"

text \<open>
  Seven passes, from the first minute mark on, in which every input reads 600 (2.93 V for
  each cell): the re-settle block runs its course and the undervoltage alarm is raised.
\<close>

definition low_run :: "tick_in list" where
  "low_run = [pass_at 60000 600, pass_at 60400 600, pass_at 60800 600, pass_at 61200 600,
     pass_at 61600 600, pass_at 62000 600, pass_at 62400 600]"

text \<open>Passes at the times \<open>ts\<close> with no overcurrent and every input reading 757 (3.70 V for
  each cell).\<close>

definition normal_run :: "ulong list \<Rightarrow> tick_in list" where
  "normal_run ts = map (\<lambda>t. pass_at t 757) ts"

text \<open>The bytes of a line typed at the console.\<close>

definition ascii :: "string \<Rightarrow> cchar list" where
  "ascii = map of_char"

text \<open>
  The state in which the \<open>switch\<close> of \<open>serialEvent\<close> runs when \<open>line\<close> (of at most six
  characters) and a newline arrive after \<open>setup\<close>: the line in \<open>consoleInput\<close>, zeros
  after it.
\<close>

definition typed :: "string \<Rightarrow> bms" where
  "typed line = booted\<lparr>consoleInput := take 7 (ascii line @ replicate 7 0)\<rparr>"

section \<open>Auxiliary facts\<close>

lemma fold_frame: "(\<And>i t. g (f i t) = g t) \<Longrightarrow> g (fold f xs s) = g s"
  by (induction xs arbitrary: s) simp_all

lemma upt_0_4: "[0..<4] = [0, 1, 2, 3]"
  by (simp add: eval_nat_numeral upt_conv_Cons)

lemma rev_upt_1_4: "rev [1..<4] = [3, 2, 1]"
  by (simp add: eval_nat_numeral upt_conv_Cons)

lemma byte_dec: "(p::byte) > 0 \<Longrightarrow> uint (p - 1) = uint p - 1"
  by (simp add: uint_sub_if' word_less_def)

lemma byte_inc: "(p::byte) < 255 \<Longrightarrow> uint (p + 1) = uint p + 1"
  by (simp add: uint_plus_if' word_less_def)

lemma byte_not_pos: "\<not> (p::byte) > 0 \<Longrightarrow> uint p = 0"
  by (simp add: word_gt_0)

lemma byte_top: "\<not> (p::byte) < 255 \<Longrightarrow> uint p = 255"
  using uint_lt2p [of p] by (simp add: word_less_def)

subsection \<open>What each block of \<open>loop\<close> leaves alone\<close>

lemma resettle_pwm: "pwm (loop_resettle tempo s) = pwm s"
  by (simp add: loop_resettle_def Let_def fold_frame [where g = pwm] digitalWrite_def)

lemma resettle_Vcell: "Vcell (loop_resettle tempo s) = Vcell s"
  by (simp add: loop_resettle_def Let_def fold_frame [where g = Vcell] digitalWrite_def)

lemma sample_pwm: "pwm (loop_sample inp s) = pwm s"
  by (simp add: loop_sample_def Let_def fold_frame [where g = pwm])

lemma sample_Vcell: "Vcell (loop_sample inp s) = Vcell s"
  by (simp add: loop_sample_def Let_def fold_frame [where g = Vcell])

lemma sample_Imax: "Imax (loop_sample inp s) = (\<not> digitalRead inp ImaxPin)"
  by (simp add: loop_sample_def Let_def)

lemma resolve_pwm: "pwm (loop_resolve s) = pwm s"
  by (simp add: loop_resolve_def loop_difference_def Let_def fold_frame [where g = pwm]
      resolve_node_def difference_node_def)

lemma check_cell_pwm: "pwm (check_cell i s) = pwm s"
  by (simp add: check_cell_def digitalWrite_def)

lemma balance_pwm: "pwm (loop_balance s) = pwm s"
  by (simp add: loop_balance_def Let_def fold_frame [where g = pwm] check_cell_pwm tone_def)

lemma Rotactor_pwm: "pwm (RotactorConfig inp s) = pwm s"
  by (simp add: RotactorConfig_def Let_def)

lemma minute_pwm: "pwm (loop_minute tempo s) = pwm s"
  by (simp add: loop_minute_def Let_def fold_frame [where g = pwm])

subsection \<open>The duty cycle after one pass\<close>

lemma regulate_pwm:
  "pwm (loop_regulate s) =
    (if Imax s \<or> Vcell s ! 0 < 4.9 then (if pwm s > 0 then pwm s - 1 else pwm s)
     else (if pwm s < 255 then pwm s + 1 else pwm s))"
  by (simp add: loop_regulate_def Let_def analogWrite_def)

lemma loop_pwm:
  "pwm (loop inp s) =
    (if \<not> digitalRead inp ImaxPin \<or> Vcell s ! 0 < 4.9
     then (if pwm s > 0 then pwm s - 1 else pwm s)
     else (if pwm s < 255 then pwm s + 1 else pwm s))"
  by (simp add: loop_def Let_def resolve_pwm balance_pwm Rotactor_pwm minute_pwm
      regulate_pwm sample_pwm sample_Vcell sample_Imax resettle_pwm resettle_Vcell)

lemma loop_pwm_down:
  "\<not> digitalRead inp ImaxPin \<or> Vcell s ! 0 < 4.9 \<Longrightarrow>
   uint (pwm (loop inp s)) = max 0 (uint (pwm s) - 1)"
  by (cases "pwm s > 0") (auto simp: loop_pwm byte_dec byte_not_pos word_less_def)

lemma loop_pwm_up:
  "\<not> (\<not> digitalRead inp ImaxPin \<or> Vcell s ! 0 < 4.9) \<Longrightarrow>
   uint (pwm (loop inp s)) = min 255 (uint (pwm s) + 1)"
  by (cases "pwm s < 255") (auto simp: loop_pwm byte_inc byte_top word_less_def)

lemma overcurrent_run:
  "\<forall>i\<in>set ins. \<not> digitalRead i ImaxPin \<Longrightarrow>
   uint (pwm (fold loop ins s)) = max 0 (uint (pwm s) - int (length ins))"
proof (induction ins arbitrary: s)
  case Nil
  show ?case by simp
next
  case (Cons i ins)
  have "uint (pwm (loop i s)) = max 0 (uint (pwm s) - 1)"
    using Cons.prems by (simp add: loop_pwm_down)
  moreover have "uint (pwm (fold loop ins (loop i s))) =
      max 0 (uint (pwm (loop i s)) - int (length ins))"
    using Cons.prems by (intro Cons.IH) simp
  ultimately show ?case by simp
qed

section \<open>Charge current regulator\<close>

text \<open>
  Claim C1 says that a pass of \<open>loop\<close> lowers the duty cycle by one exactly when the
  overcurrent flag is active or the voltage of the bottom cell is above the 4.9 V
  sentinel, and raises it by one otherwise. The sketch tests \<open>Vcell[0] < 4.9\<close>. After
  \<open>setup\<close>, with no overcurrent, the first pass raises the duty cycle to 1 (\<open>Vcell[0]\<close> is
  still its initial 4.9). When that pass has resolved the bottom cell to 3.70 V, the second
  pass lowers the duty cycle to 0, where the claim has 2; when it has resolved the bottom
  cell to 5.00 V, the second pass raises the duty cycle to 2, where the claim has 0.
\<close>

theorem regulator_compares_below_sentinel:
  "pwm (loop (pass_at 0 757) booted) = 1
   \<and> Vcell (loop (pass_at 0 757) booted) ! 0 = 3785 / 1023
   \<and> pwm (fold loop [pass_at 0 757, pass_at 10 757] booted) = 0
   \<and> pwm (loop (pass_at 0 1023) booted) = 1
   \<and> Vcell (loop (pass_at 0 1023) booted) ! 0 = 5
   \<and> pwm (fold loop [pass_at 0 1023, pass_at 10 1023] booted) = 2"
  by code_simp

text \<open>
  The duty cycle stays within 0..255 and never wraps around: a pass of \<open>loop\<close> moves it
  one step down, stopping at 0, or one step up, stopping at 255, and passes that all see
  the overcurrent input active lower it by their number, down to 0 and no further.
\<close>

lemma duty_step:
  "0 \<le> uint (pwm (loop inp s)) \<and> uint (pwm (loop inp s)) \<le> 255
   \<and> (uint (pwm (loop inp s)) = max 0 (uint (pwm s) - 1)
        \<or> uint (pwm (loop inp s)) = min 255 (uint (pwm s) + 1))
   \<and> ((\<forall>i\<in>set downs. \<not> digitalRead i ImaxPin) \<longrightarrow>
        uint (pwm (fold loop downs s1)) = max 0 (uint (pwm s1) - int (length downs)))"
proof -
  have "uint (pwm (loop inp s)) \<le> 255"
    using uint_lt2p [of "pwm (loop inp s)"] by simp
  moreover have "uint (pwm (loop inp s)) = max 0 (uint (pwm s) - 1)
      \<or> uint (pwm (loop inp s)) = min 255 (uint (pwm s) + 1)"
    using loop_pwm_down [of inp s] loop_pwm_up [of inp s] by blast
  ultimately show ?thesis
    using overcurrent_run [of downs s1] by simp
qed

section \<open>Configuration resolver\<close>

text \<open>
  Claim C9: \<open>RotactorConfig\<close> decodes the selector lines by the truth table (U and D
  high: 4 cells; U high, D low: 2; U low, D high: 3; both low: 1; LiFePO4 exactly when C
  is high). A call that reads a line different from the one remembered sets \<open>runOnce\<close>;
  a later call that reads the same three lines leaves \<open>runOnce\<close> as it finds it, also
  after the re-settle block has cleared it.
\<close>

theorem RotactorConfig_decodes:
  "cellNumber (RotactorConfig inp s) =
      (if digitalRead inp UrcPin then (if digitalRead inp DrcPin then 4 else 2)
       else (if digitalRead inp DrcPin then 3 else 1))
   \<and> cellModel (RotactorConfig inp s) = digitalRead inp CrcPin
   \<and> (digitalRead inp UrcPin \<noteq> memo_Urc s \<or> digitalRead inp DrcPin \<noteq> memo_Drc s
        \<or> digitalRead inp CrcPin \<noteq> memo_Crc s \<longrightarrow> runOnce (RotactorConfig inp s))
   \<and> (digitalRead inp2 UrcPin = digitalRead inp UrcPin
        \<and> digitalRead inp2 DrcPin = digitalRead inp DrcPin
        \<and> digitalRead inp2 CrcPin = digitalRead inp CrcPin \<longrightarrow>
        runOnce (RotactorConfig inp2 ((RotactorConfig inp s)\<lparr>runOnce := r\<rparr>)) = r)"
  by (simp add: RotactorConfig_def Let_def)

theorem RotactorConfig_decodes_witness:
  "cellNumber (RotactorConfig (pass_at 0 600) ((power_on saved_defaults)\<lparr>runOnce := False\<rparr>)) = 4
   \<and> \<not> cellModel (RotactorConfig (pass_at 0 600) ((power_on saved_defaults)\<lparr>runOnce := False\<rparr>))
   \<and> runOnce (RotactorConfig (pass_at 0 600) ((power_on saved_defaults)\<lparr>runOnce := False\<rparr>))
   \<and> \<not> runOnce (RotactorConfig (pass_at 1000 778)
         ((RotactorConfig (pass_at 0 600) ((power_on saved_defaults)\<lparr>runOnce := False\<rparr>))
            \<lparr>runOnce := False\<rparr>))"
  using RotactorConfig_decodes [of "pass_at 0 600"
      "(power_on saved_defaults)\<lparr>runOnce := False\<rparr>" "pass_at 1000 778" False]
  by (simp add: pass_at_def power_on_def UrcPin_def DrcPin_def CrcPin_def)

section \<open>Voltage resolver\<close>

lemma difference_Vcell:
  "Vcell s = [a0, a1, a2, a3] \<Longrightarrow>
   Vcell (loop_difference s) = [a0, a1 - a0, a2 - a1, a3 - a2]"
  unfolding loop_difference_def rev_upt_1_4 by (simp add: difference_node_def)

lemma difference_Valim:
  "Vcell s = [a0, a1, a2, a3] \<Longrightarrow> Valim (loop_difference s) = a3"
  unfolding loop_difference_def rev_upt_1_4 by (simp add: difference_node_def)

text \<open>
  Claim C8: with the node voltages \<open>A0\<close>, \<open>A1\<close>, \<open>A2\<close>, \<open>A3\<close> in \<open>Vcell\<close>, the
  differencing of lines 201--204 leaves \<open>A0\<close> for the bottom cell and the difference of
  adjacent nodes for the others, sets \<open>Valim\<close> to \<open>A3\<close>, and the four cell voltages
  add up to \<open>A3\<close> (in exact arithmetic; the order of the node voltages plays no part).
\<close>

theorem telescoping_round_trip:
  "Vcell s = [A0, A1, A2, A3] \<Longrightarrow>
   Vcell (loop_difference s) = [A0, A1 - A0, A2 - A1, A3 - A2]
   \<and> Valim (loop_difference s) = A3
   \<and> sum_list (Vcell (loop_difference s)) = A3"
  by (simp add: difference_Vcell difference_Valim)

theorem telescoping_round_trip_witness:
  "Vcell (loop_difference ((power_on saved_defaults)\<lparr>Vcell := [3.7, 7.5, 11.1, 14.8]\<rparr>))
     = [3.7, 3.8, 3.6, 3.7]
   \<and> Valim (loop_difference ((power_on saved_defaults)\<lparr>Vcell := [3.7, 7.5, 11.1, 14.8]\<rparr>)) = 14.8
   \<and> sum_list (Vcell (loop_difference ((power_on saved_defaults)\<lparr>Vcell := [3.7, 7.5, 11.1, 14.8]\<rparr>)))
     = 14.8"
  using telescoping_round_trip [of "(power_on saved_defaults)\<lparr>Vcell := [3.7, 7.5, 11.1, 14.8]\<rparr>"
      "3.7" "7.5" "11.1" "14.8"]
  by simp

text \<open>From power-on the sample counter is 0 at the end of every pass: no window builds up.\<close>

lemma count_frame:
  "analogReadsCount (loop_balance s) = analogReadsCount s"
  "analogReadsCount (RotactorConfig inp s) = analogReadsCount s"
  "analogReadsCount (loop_minute tempo s) = analogReadsCount s"
  "analogReadsCount (loop_resolve s) = 0"
  by (simp_all add: loop_balance_def check_cell_def digitalWrite_def tone_def
      RotactorConfig_def loop_minute_def loop_resolve_def loop_difference_def
      difference_node_def Let_def fold_frame [where g = analogReadsCount])

lemma count_before:
  "analogReadsCount (loop_regulate (loop_sample inp (if runOnce s then loop_resettle t s else s)))
     = analogReadsCount s"
  by (simp add: loop_regulate_def analogWrite_def loop_sample_def loop_resettle_def
      digitalWrite_def Let_def fold_frame [where g = analogReadsCount])

lemma window_never_fills:
  "analogReadsCount s = 0 \<Longrightarrow> analogReadsCount (fold loop ins s) = 0"
proof (induction ins arbitrary: s)
  case Nil
  then show ?case by simp
next
  case (Cons i ins)
  have "analogReadsCount (loop i s) = 0"
    using Cons.prems by (simp add: loop_def Let_def count_frame count_before)
  then show ?case by (simp add: Cons.IH)
qed

text \<open>
  Claim C2 says that the cell voltages are resolved, and the accumulators and the counter
  reset, exactly when the counter exceeds 100, and that the accumulators grow otherwise.
  The sketch returns from \<open>loop\<close> when the counter exceeds 100 and resolves when it does
  not. The first pass after \<open>setup\<close> resolves the voltages from a single sample and
  resets the accumulators and the counter; a pass that starts with 100 samples
  accumulated counts 101, keeps accumulating and leaves \<open>Vcell\<close> as it was.
\<close>

theorem window_test_reversed:
  "analogReadsCount (loop (pass_at 0 600) booted) = 0
   \<and> VcellCumul (loop (pass_at 0 600) booted) = [0, 0, 0, 0]
   \<and> Vcell (loop (pass_at 0 600) booted) = [3000 / 1023, 3000 / 1023, 3000 / 1023, 3000 / 1023]
   \<and> analogReadsCount (loop (pass_at 0 600)
        (booted\<lparr>analogReadsCount := 100, VcellCumul := [60000, 60000, 60000, 60000]\<rparr>)) = 101
   \<and> VcellCumul (loop (pass_at 0 600)
        (booted\<lparr>analogReadsCount := 100, VcellCumul := [60000, 60000, 60000, 60000]\<rparr>))
      = [60600, 60600, 60600, 60600]
   \<and> Vcell (loop (pass_at 0 600)
        (booted\<lparr>analogReadsCount := 100, VcellCumul := [60000, 60000, 60000, 60000]\<rparr>))
      = [4.9, 4.9, 4.9, 4.9]"
  by code_simp

section \<open>The duty cycle at normal cell voltages\<close>

lemma nonempty_frame:
  "(\<And>i t. (g (f i t) = []) = (g t = [])) \<Longrightarrow> (g (fold f xs s) = []) = (g s = [])"
  by (induction xs arbitrary: s) simp_all

lemma before_resolve:
  "VcellCumul (loop_regulate (loop_sample inp (if runOnce s then loop_resettle t s else s))) ! 0
     = VcellCumul s ! 0 + real_of_int (analogRead inp 0)" if ne: "VcellCumul s \<noteq> []"
proof -
  have keep: "VcellCumul (if runOnce s then loop_resettle t s else s) = VcellCumul s"
    by (simp add: loop_resettle_def digitalWrite_def Let_def fold_frame [where g = VcellCumul])
  obtain c cs where "VcellCumul s = c # cs"
    using ne by (cases "VcellCumul s") auto
  then show ?thesis
    using keep unfolding loop_sample_def upt_0_4
    by (simp add: loop_regulate_def analogWrite_def VcellPin_def Let_def)
qed

lemma before_resolve_keeps:
  "Vcell (loop_regulate (loop_sample inp (if runOnce s then loop_resettle t s else s))) = Vcell s"
  "Vcalibration (loop_regulate (loop_sample inp (if runOnce s then loop_resettle t s else s)))
     = Vcalibration s"
  "(VcellCumul (loop_regulate (loop_sample inp (if runOnce s then loop_resettle t s else s))) = [])
     = (VcellCumul s = [])"
  by (simp_all add: loop_regulate_def analogWrite_def loop_sample_def loop_resettle_def
      digitalWrite_def Let_def fold_frame [where g = Vcell] fold_frame [where g = Vcalibration]
      fold_frame [where g = VcellCumul] nonempty_frame [where g = VcellCumul])

lemma resolve_bottom:
  assumes "VcellCumul s \<noteq> []" "Vcell s \<noteq> []"
  shows "Vcell (loop_resolve s) ! 0 =
      (VcellCumul s ! 0 / real (unat (analogReadsCount s)) / 1023.0) * 5.0 * Vcalibration s ! 0"
    and "VcellCumul (loop_resolve s) ! 0 = 0"
    and "VcellCumul (loop_resolve s) \<noteq> []" and "Vcell (loop_resolve s) \<noteq> []"
    and "Vcalibration (loop_resolve s) = Vcalibration s"
proof -
  obtain c cs v vs where "VcellCumul s = c # cs" "Vcell s = v # vs"
    using assms by (cases "VcellCumul s"; cases "Vcell s") auto
  then show "Vcell (loop_resolve s) ! 0 =
      (VcellCumul s ! 0 / real (unat (analogReadsCount s)) / 1023.0) * 5.0 * Vcalibration s ! 0"
    and "VcellCumul (loop_resolve s) ! 0 = 0"
    and "VcellCumul (loop_resolve s) \<noteq> []" and "Vcell (loop_resolve s) \<noteq> []"
    and "Vcalibration (loop_resolve s) = Vcalibration s"
    unfolding loop_resolve_def loop_difference_def upt_0_4 rev_upt_1_4
    by (simp_all add: resolve_node_def difference_node_def Let_def)
qed

lemma after_resolve:
  "Vcell (loop_balance s) = Vcell s" "VcellCumul (loop_balance s) = VcellCumul s"
  "Vcalibration (loop_balance s) = Vcalibration s"
  "Vcell (RotactorConfig inp s) = Vcell s" "VcellCumul (RotactorConfig inp s) = VcellCumul s"
  "Vcalibration (RotactorConfig inp s) = Vcalibration s"
  "Vcell (loop_minute t s) = Vcell s" "VcellCumul (loop_minute t s) = VcellCumul s"
  "Vcalibration (loop_minute t s) = Vcalibration s"
  by (simp_all add: loop_balance_def check_cell_def digitalWrite_def tone_def
      RotactorConfig_def loop_minute_def Let_def fold_frame [where g = Vcell]
      fold_frame [where g = VcellCumul] fold_frame [where g = Vcalibration])

lemma loop_bottom_cell:
  assumes "analogReadsCount s = 0" "VcellCumul s \<noteq> []" "Vcell s \<noteq> []"
  shows "Vcell (loop inp s) ! 0 =
      ((VcellCumul s ! 0 + real_of_int (analogRead inp 0)) / 1023.0) * 5.0 * Vcalibration s ! 0"
    and "VcellCumul (loop inp s) ! 0 = 0"
    and "VcellCumul (loop inp s) \<noteq> []" and "Vcell (loop inp s) \<noteq> []"
    and "Vcalibration (loop inp s) = Vcalibration s"
    and "analogReadsCount (loop inp s) = 0"
proof -
  let ?s3 = "loop_regulate (loop_sample inp (if runOnce s then loop_resettle (millis inp) s else s))"
  let ?s4 = "?s3\<lparr>analogReadsCount := analogReadsCount ?s3 + 1\<rparr>"
  have count: "analogReadsCount ?s4 = 1"
    using assms(1) by (simp add: count_before)
  have ne: "VcellCumul ?s4 \<noteq> []" "Vcell ?s4 \<noteq> []"
    using assms(2,3) by (simp_all add: before_resolve_keeps)
  have cum: "VcellCumul ?s4 ! 0 = VcellCumul s ! 0 + real_of_int (analogRead inp 0)"
    using assms(2) by (simp add: before_resolve)
  have cal: "Vcalibration ?s4 = Vcalibration s"
    by (simp add: before_resolve_keeps)
  note r = resolve_bottom [OF ne]
  have shape: "Vcell (loop inp s) = Vcell (loop_resolve ?s4)"
    "VcellCumul (loop inp s) = VcellCumul (loop_resolve ?s4)"
    "Vcalibration (loop inp s) = Vcalibration (loop_resolve ?s4)"
    using count by (simp_all add: loop_def Let_def after_resolve)
  show "Vcell (loop inp s) ! 0 =
      ((VcellCumul s ! 0 + real_of_int (analogRead inp 0)) / 1023.0) * 5.0 * Vcalibration s ! 0"
    using r(1) count cum cal by (simp only: shape) simp
  show "VcellCumul (loop inp s) ! 0 = 0" using r(2) by (simp only: shape)
  show "VcellCumul (loop inp s) \<noteq> []" using r(3) by (simp only: shape not_False_eq_True)
  show "Vcell (loop inp s) \<noteq> []" using r(4) by (simp only: shape not_False_eq_True)
  show "Vcalibration (loop inp s) = Vcalibration s" using r(5) cal by (simp only: shape)
  show "analogReadsCount (loop inp s) = 0"
    using window_never_fills [OF assms(1), of "[inp]"] by simp
qed

lemma booted_bottom:
  "analogReadsCount booted = 0" "VcellCumul booted \<noteq> []" "Vcell booted \<noteq> []"
  "VcellCumul booted ! 0 = 0" "Vcalibration booted ! 0 = 1" "Vcell booted ! 0 = 4.9"
  "pwm booted = 0"
  by code_simp+

lemma throttled_stays:
  assumes "analogReadsCount s = 0" "VcellCumul s \<noteq> []" "Vcell s \<noteq> []"
    "VcellCumul s ! 0 = 0" "Vcalibration s ! 0 = 1" "Vcell s ! 0 < 4.9" "pwm s = 0"
  shows "pwm (fold loop (normal_run ts) s) = 0"
  using assms
proof (induction ts arbitrary: s)
  case Nil
  then show ?case by (simp add: normal_run_def)
next
  case (Cons t ts)
  let ?s = "loop (pass_at t 757) s"
  note b = loop_bottom_cell [OF Cons.prems(1-3), of "pass_at t 757"]
  have v: "Vcell ?s ! 0 < 4.9"
    using b(1) Cons.prems(4,5) by (simp add: pass_at_def)
  have p: "pwm ?s = 0"
    using Cons.prems(6,7) by (simp add: loop_pwm)
  have "pwm (fold loop (normal_run ts) ?s) = 0"
    using b(6) b(3) b(4) b(2) _ v p
  proof (rule Cons.IH)
    show "Vcalibration ?s ! 0 = 1" using b(5) Cons.prems(5) by simp
  qed
  then show ?case by (simp add: normal_run_def)
qed

text \<open>
  Claim C7 says that the duty cycle never leaves 0..255, that each pass changes it by one
  step with saturation at the bounds, that 50 overcurrent passes from 3 leave it at 0, and
  that sustained passes without overcurrent leave it at 255. The bounds, the single step
  and the lower saturation hold (\<open>duty_step\<close>). The last part does not: line 183 lowers
  the duty cycle whenever the bottom cell reads below 4.9 V. After \<open>setup\<close>, with no
  overcurrent and every cell at 3.70 V, the first pass raises the duty cycle to 1 and every
  later pass leaves it at 0, whatever the times of the passes.
\<close>

theorem duty_falls_at_normal_voltage:
  "pwm (fold loop [pass_at 0 757, pass_at 10 757, pass_at 20 757, pass_at 30 757] booted) = 0
   \<and> (\<forall>t0 t1 ts. pwm (fold loop (normal_run (t0 # t1 # ts)) booted) = 0)"
proof -
  have first: "Vcell (loop (pass_at t0 757) booted) ! 0 < 4.9"
    "pwm (loop (pass_at t0 757) booted) = 1" for t0
    using loop_bottom_cell(1) [OF booted_bottom(1-3), of "pass_at t0 757"]
    by (simp_all add: booted_bottom loop_pwm pass_at_def ImaxPin_def CrcPin_def)
  have "pwm (fold loop (normal_run (t0 # t1 # ts)) booted) = 0" for t0 t1 ts
  proof -
    let ?a = "loop (pass_at t0 757) booted"
    let ?b = "loop (pass_at t1 757) ?a"
    note a = loop_bottom_cell [OF booted_bottom(1-3), of "pass_at t0 757"]
    note b = loop_bottom_cell [OF a(6) a(3) a(4), of "pass_at t1 757"]
    have cal: "Vcalibration ?b ! 0 = 1"
      using a(5) b(5) booted_bottom(5) by simp
    have v: "Vcell ?b ! 0 < 4.9"
      using b(1) a(2) a(5) booted_bottom(5) by (simp add: pass_at_def)
    have p: "pwm ?b = 0"
      using first [of t0] by (simp add: loop_pwm)
    have "pwm (fold loop (normal_run ts) ?b) = 0"
      using b(6) b(3) b(4) b(2) cal v p by (rule throttled_stays)
    then show ?thesis by (simp add: normal_run_def)
  qed
  moreover have "pwm (fold loop [pass_at 0 757, pass_at 10 757, pass_at 20 757, pass_at 30 757]
      booted) = 0"
    by code_simp
  ultimately show ?thesis by blast
qed

section \<open>Undervoltage alarm\<close>

subsection \<open>What each block does to the alarm\<close>

lemma resettle_alarm:
  "\<not> buzzerON (loop_resettle tempo s)"
  "oneMinute (loop_resettle tempo s) = oneMinute s"
  "tones (loop_resettle tempo s) = tones s"
  "analogReadsCount (loop_resettle tempo s) = analogReadsCount s"
  "memo_tempo (loop_resettle tempo s) = memo_tempo s"
  by (simp_all add: loop_resettle_def Let_def digitalWrite_def
      fold_frame [where g = buzzerON] fold_frame [where g = oneMinute]
      fold_frame [where g = tones] fold_frame [where g = analogReadsCount]
      fold_frame [where g = memo_tempo])

lemma sample_alarm:
  "buzzerON (loop_sample inp s) = buzzerON s"
  "oneMinute (loop_sample inp s) = oneMinute s"
  "tones (loop_sample inp s) = tones s"
  "analogReadsCount (loop_sample inp s) = analogReadsCount s"
  "memo_tempo (loop_sample inp s) = memo_tempo s"
  by (simp_all add: loop_sample_def Let_def
      fold_frame [where g = buzzerON] fold_frame [where g = oneMinute]
      fold_frame [where g = tones] fold_frame [where g = analogReadsCount]
      fold_frame [where g = memo_tempo])

lemma regulate_alarm:
  "buzzerON (loop_regulate s) = buzzerON s"
  "oneMinute (loop_regulate s) = oneMinute s"
  "tones (loop_regulate s) = tones s"
  "analogReadsCount (loop_regulate s) = analogReadsCount s"
  "memo_tempo (loop_regulate s) = memo_tempo s"
  by (simp_all add: loop_regulate_def Let_def analogWrite_def)

lemma resolve_alarm:
  "buzzerON (loop_resolve s) = buzzerON s"
  "oneMinute (loop_resolve s) = oneMinute s"
  "tones (loop_resolve s) = tones s"
  "memo_tempo (loop_resolve s) = memo_tempo s"
  by (simp_all add: loop_resolve_def loop_difference_def Let_def resolve_node_def
      difference_node_def
      fold_frame [where g = buzzerON] fold_frame [where g = oneMinute]
      fold_frame [where g = tones] fold_frame [where g = memo_tempo])

lemma check_cell_alarm:
  "oneMinute (check_cell i s) = oneMinute s"
  "tones (check_cell i s) = tones s"
  "buzzerON s \<Longrightarrow> buzzerON (check_cell i s)"
  "buzzerON (check_cell i s) \<Longrightarrow> buzzerON s \<or> oneMinute s"
  by (simp_all add: check_cell_def digitalWrite_def split: if_splits)

lemma check_cells_alarm:
  "oneMinute (fold check_cell xs s) = oneMinute s"
  "tones (fold check_cell xs s) = tones s"
  by (simp_all add: fold_frame [where g = oneMinute] fold_frame [where g = tones]
      check_cell_alarm)

lemma check_cells_keep: "buzzerON s \<Longrightarrow> buzzerON (fold check_cell xs s)"
  by (induction xs arbitrary: s) (simp_all add: check_cell_alarm)

lemma check_cells_cause: "buzzerON (fold check_cell xs s) \<Longrightarrow> buzzerON s \<or> oneMinute s"
proof (induction xs arbitrary: s)
  case Nil
  then show ?case by simp
next
  case (Cons i xs)
  then have "buzzerON (check_cell i s) \<or> oneMinute (check_cell i s)" by simp
  then show ?case
  proof
    assume "buzzerON (check_cell i s)"
    then show ?thesis by (rule check_cell_alarm(4))
  next
    assume "oneMinute (check_cell i s)"
    then show ?thesis by (simp add: check_cell_alarm)
  qed
qed

lemma balance_alarm:
  "oneMinute (loop_balance s) = oneMinute s"
  "buzzerON (loop_balance s) = buzzerON (fold check_cell [0..<4] s)"
  "tones (loop_balance s) =
     (if buzzerON (fold check_cell [0..<4] s) then Suc (tones s) else tones s)"
  by (simp_all add: loop_balance_def Let_def tone_def check_cells_alarm)

lemma Rotactor_alarm:
  "buzzerON (RotactorConfig inp s) = buzzerON s"
  "oneMinute (RotactorConfig inp s) = oneMinute s"
  "tones (RotactorConfig inp s) = tones s"
  by (simp_all add: RotactorConfig_def Let_def)

lemma minute_alarm:
  "buzzerON (loop_minute tempo s) = buzzerON s"
  "oneMinute (loop_minute tempo s)"
  "tones (loop_minute tempo s) = tones s"
  by (simp_all add: loop_minute_def Let_def fold_frame [where g = buzzerON]
      fold_frame [where g = tones])

lemmas alarm_frame = resettle_alarm sample_alarm regulate_alarm resolve_alarm balance_alarm
  Rotactor_alarm minute_alarm

lemma loop_oneMinute: "oneMinute s \<Longrightarrow> oneMinute (loop inp s)"
  by (simp add: loop_def Let_def alarm_frame)

lemma loop_buzzer_cause:
  "buzzerON (loop inp s) \<Longrightarrow> (buzzerON s \<and> \<not> runOnce s) \<or> oneMinute s"
  apply (simp add: loop_def Let_def alarm_frame split: if_splits)
  apply (auto dest!: check_cells_cause simp: alarm_frame)
  done

lemma loop_tone_cause:
  "tones (loop inp s) \<noteq> tones s \<Longrightarrow> (buzzerON s \<and> \<not> runOnce s) \<or> oneMinute s"
  apply (simp add: loop_def Let_def alarm_frame split: if_splits)
  apply (auto dest!: check_cells_cause simp: alarm_frame)
  done

lemma loop_latched: "buzzerON s \<Longrightarrow> \<not> runOnce s \<Longrightarrow> buzzerON (loop inp s)"
  by (simp add: loop_def Let_def alarm_frame check_cells_keep)

lemma loop_latched_tone:
  "buzzerON s \<Longrightarrow> \<not> runOnce s \<Longrightarrow> \<not> analogReadsCount s + 1 > 100 \<Longrightarrow>
   \<not> millis inp - memo_tempo s < 1000 \<Longrightarrow> tones (loop inp s) = Suc (tones s)"
  by (simp add: loop_def Let_def alarm_frame check_cells_keep)

lemma loop_resettle_clears:
  "runOnce s \<Longrightarrow> analogReadsCount s + 1 > 100 \<or> millis inp - memo_tempo s < 1000 \<Longrightarrow>
   \<not> buzzerON (loop inp s)"
  by (auto simp add: loop_def Let_def alarm_frame)


lemma EEPROM_Get_alarm:
  "buzzerON (EEPROM_Get s) = buzzerON s"
  "oneMinute (EEPROM_Get s) = oneMinute s"
  by (simp_all add: EEPROM_Get_def Let_def fold_frame [where g = buzzerON]
      fold_frame [where g = oneMinute])

lemma EEPROM_Update_alarm:
  "buzzerON (EEPROM_Update s) = buzzerON s"
  "oneMinute (EEPROM_Update s) = oneMinute s"
  by (simp_all add: EEPROM_Update_def EEPROM_update_def Let_def
      fold_frame [where g = buzzerON] fold_frame [where g = oneMinute])

lemma command_alarm:
  "command s = Inr s' \<Longrightarrow> buzzerON s' = buzzerON s \<and> oneMinute s' = oneMinute s"
  by (auto simp: command_def command_B_def command_L_def command_H_def println_def Let_def
      EEPROM_Get_alarm EEPROM_Update_alarm split: if_splits)

lemma serialEvent_alarm:
  "serialEvent rx s = Inr s' \<Longrightarrow> buzzerON s' = buzzerON s \<and> oneMinute s' = oneMinute s"
  by (cases rx) (auto simp: serialEvent_def dest!: command_alarm split: if_splits)

lemma setup_alarm: "\<not> buzzerON (sketch_setup inp (power_on rom))"
  by (simp add: sketch_setup_def Let_def digitalWrite_def analogWrite_def println_def
      FIRST_USE_def EEPROM_Get_alarm Rotactor_alarm fold_frame [where g = buzzerON]
      power_on_def)

lemma loop_alarm_inv:
  "buzzerON s \<longrightarrow> oneMinute s \<Longrightarrow> buzzerON (loop inp s) \<longrightarrow> oneMinute (loop inp s)"
  using loop_buzzer_cause [of inp s] loop_oneMinute [of s inp] by blast

lemma run_alarm_inv:
  "run es s = Inr s' \<Longrightarrow> buzzerON s \<longrightarrow> oneMinute s \<Longrightarrow> buzzerON s' \<longrightarrow> oneMinute s'"
proof (induction es arbitrary: s)
  case Nil
  then show ?case by simp
next
  case (Cons e es)
  show ?case
  proof (cases e)
    case (Pass inp)
    with Cons.prems have "run es (loop inp s) = Inr s'" by simp
    then show ?thesis using Cons.prems(2) by (rule Cons.IH [OF _ loop_alarm_inv])
  next
    case (Rx c)
    with Cons.prems obtain t where t: "serialEvent (Some c) s = Inr t" "run es t = Inr s'"
      by (auto split: sum.splits)
    from t(1) Cons.prems(2) have "buzzerON t \<longrightarrow> oneMinute t"
      by (auto dest: serialEvent_alarm)
    with t(2) show ?thesis by (rule Cons.IH)
  qed
qed

lemma run_passes: "run (map Pass ins) s = Inr (fold loop ins s)"
  by (induction ins arbitrary: s) simp_all

text \<open>
  Claim C3 says that the alarm sounds only once the first-minute flag is set, and that it
  is not latched: it would clear at the next one-second check after the cells have
  recovered. The first part holds in every execution. The second does not:
  \<open>buzzerON\<close> is cleared only by the re-settle block. In the execution below all four
  cells read 2.93 V until the alarm is raised and the re-settle block has finished; they
  then read 3.80 V, above \<open>Vmin\<close> = 3.6 V, at the one-second check of the pass at 63400 ms,
  and at the next check, at 64400 ms, the buzzer sounds again and \<open>buzzerON\<close> is still set.
\<close>

theorem alarm_survives_recovery:
  "Vmin (fold loop (low_run @ [pass_at 63400 778]) booted)
      ! model_index (fold loop (low_run @ [pass_at 63400 778]) booted) = 3.6
   \<and> Vcell (fold loop (low_run @ [pass_at 63400 778]) booted)
      = [3890 / 1023, 3890 / 1023, 3890 / 1023, 3890 / 1023]
   \<and> tones (fold loop (low_run @ [pass_at 63400 778, pass_at 64400 778]) booted)
      = Suc (tones (fold loop (low_run @ [pass_at 63400 778]) booted))
   \<and> buzzerON (fold loop (low_run @ [pass_at 63400 778, pass_at 64400 778]) booted)"
  by code_simp

text \<open>
  Claim C3 as amended: the buzzer sounds in a pass only if the first-minute flag was set
  before, in every execution from \<open>setup\<close>; the alarm is latched: outside the re-settle
  block a raised \<open>buzzerON\<close> stays raised whatever the voltages are, and the buzzer sounds
  at each one-second check; the re-settle block clears it (a pass with \<open>runOnce\<close> set
  that does not reach the one-second check ends with \<open>buzzerON\<close> cleared).
\<close>

theorem alarm_latched:
  "(run es (sketch_setup inp0 (power_on rom)) = Inr s \<and> tones (loop inp s) \<noteq> tones s
      \<longrightarrow> oneMinute s)
   \<and> (buzzerON t \<and> \<not> runOnce t \<longrightarrow> buzzerON (loop inp1 t))
   \<and> (buzzerON t \<and> \<not> runOnce t \<and> \<not> analogReadsCount t + 1 > 100
        \<and> \<not> millis inp1 - memo_tempo t < 1000 \<longrightarrow> tones (loop inp1 t) = Suc (tones t))
   \<and> (runOnce u \<and> (analogReadsCount u + 1 > 100 \<or> millis inp2 - memo_tempo u < 1000)
        \<longrightarrow> \<not> buzzerON (loop inp2 u))"
proof -
  have "oneMinute s"
    if "run es (sketch_setup inp0 (power_on rom)) = Inr s" and "tones (loop inp s) \<noteq> tones s"
  proof -
    have "buzzerON s \<longrightarrow> oneMinute s"
      using that(1) by (rule run_alarm_inv) (simp add: setup_alarm)
    then show ?thesis using loop_tone_cause [OF that(2)] by blast
  qed
  then show ?thesis
    using loop_latched [of t inp1] loop_latched_tone [of t inp1] loop_resettle_clears [of u inp2]
    by blast
qed

theorem alarm_latched_witness:
  "oneMinute (fold loop low_run booted)
   \<and> buzzerON (loop (pass_at 63400 778) (fold loop low_run booted))
   \<and> tones (loop (pass_at 63400 778) (fold loop low_run booted))
       = Suc (tones (fold loop low_run booted))
   \<and> \<not> buzzerON (loop (pass_at 500 600) booted)"
proof -
  have a: "run (map Pass low_run) (sketch_setup (pass_at 0 600) (power_on saved_defaults))
      = Inr (fold loop low_run booted)"
    by (simp add: run_passes booted_def)
  have b: "tones (loop (pass_at 63400 778) (fold loop low_run booted))
      \<noteq> tones (fold loop low_run booted)"
    by code_simp
  have c: "buzzerON (fold loop low_run booted)" "\<not> runOnce (fold loop low_run booted)"
    "\<not> analogReadsCount (fold loop low_run booted) + 1 > 100"
    "\<not> millis (pass_at 63400 778) - memo_tempo (fold loop low_run booted) < 1000"
    by code_simp+
  have d: "runOnce booted" "millis (pass_at 500 600) - memo_tempo booted < 1000"
    by code_simp+
  show ?thesis
    using alarm_latched [of "map Pass low_run" "pass_at 0 600" saved_defaults
        "fold loop low_run booted" "pass_at 63400 778" "fold loop low_run booted"
        "pass_at 63400 778" booted "pass_at 500 600"] a b c d
    by blast
qed

section \<open>Calibration store\<close>

lemma high_part: "push_bit 8 (ucast (highByte w) :: cint) = push_bit 8 (drop_bit 8 w)"
  unfolding highByte_def
  by (rule bit_word_eqI) (auto simp: bit_simps)

lemma low_part: "(ucast (lowByte w) :: cint) = take_bit 8 w"
proof -
  have "w AND 255 = take_bit 8 w"
    by (simp add: take_bit_eq_mask mask_eq_exp_minus_1)
  then have "lowByte w = ucast (take_bit 8 w)"
    by (simp add: lowByte_def)
  then show ?thesis
    by (simp only:) (rule bit_word_eqI, auto simp: bit_simps)
qed

lemma bytes_of_word: "calibration_word (highByte w) (lowByte w) = w"
  by (simp add: calibration_word_def high_part low_part bits_ident)

lemma calibration_round_trip_value:
  assumes "0.8 \<le> x" "x \<le> 1.2"
  shows "calibration_decode (highByte (calibration_encode x)) (lowByte (calibration_encode x))
     = real_of_int \<lfloor>1000 * x\<rfloor> / 1000"
proof -
  have lo: "800 \<le> \<lfloor>1000 * x\<rfloor>" using assms(1) by (simp add: le_floor_iff)
  have hi: "\<lfloor>1000 * x\<rfloor> \<le> 1200" using assms(2) by (simp add: floor_le_iff)
  have "sint (word_of_int \<lfloor>1000 * x\<rfloor> :: cint) = \<lfloor>1000 * x\<rfloor>"
    using lo hi by (simp add: signed_of_int signed_take_bit_int_eq_self_iff)
  moreover have "c_trunc (1000 * x) = \<lfloor>1000 * x\<rfloor>"
    using assms(1) by (simp add: c_trunc_def)
  ultimately show ?thesis
    by (simp add: calibration_decode_def bytes_of_word calibration_encode_def float_to_int_def)
qed

lemma threshold_round_trip_value:
  assumes "3 \<le> v" "v \<le> 4.6"
  shows "threshold_decode (threshold_encode v) = real_of_int (\<lfloor>v * 100 - 300\<rfloor> + 300) / 100"
proof -
  define n where "n = \<lfloor>v * 100 - 300\<rfloor>"
  have "0 \<le> n" "n \<le> 160"
    using assms by (simp_all add: n_def le_floor_iff floor_le_iff)
  then have "uint (word_of_int n :: byte) = n"
    by (simp add: uint_word_of_int)
  moreover have "c_trunc (v * 100 - 300) = n"
    using assms(1) by (simp add: c_trunc_def n_def)
  ultimately have "threshold_decode (threshold_encode v) = real_of_int (n + 300) / 100"
    by (simp add: threshold_decode_def threshold_encode_def float_to_byte_def
        del: of_int_uint)
  then show ?thesis by (simp only: n_def)
qed

lemma floor_within: "\<bar>real_of_int \<lfloor>y\<rfloor> / c - y / c\<bar> < 1 / c" if "0 < c" for y c :: real
proof -
  have "real_of_int \<lfloor>y\<rfloor> \<le> y" "y < real_of_int \<lfloor>y\<rfloor> + 1" by linarith+
  then have "\<bar>real_of_int \<lfloor>y\<rfloor> - y\<bar> < 1" by linarith
  then have "\<bar>real_of_int \<lfloor>y\<rfloor> - y\<bar> / c < 1 / c" using that by (simp add: divide_strict_right_mono)
  then show ?thesis using that by (simp add: diff_divide_distrib [symmetric])
qed

lemma threshold_decode_ge: "3 \<le> threshold_decode b"
proof -
  have "0 \<le> real_of_int (uint b)" by (simp del: of_int_uint)
  then show ?thesis by (simp add: threshold_decode_def del: of_int_uint)
qed


lemma Update_eeprom:
  "Vcalibration s = [k0, k1, k2, k3] \<Longrightarrow> Vmax s = [h0, h1] \<Longrightarrow> Vmin s = [l0, l1] \<Longrightarrow>
   eeprom (EEPROM_Update s) = (eeprom s)
     (0 := highByte (calibration_encode k0), 1 := lowByte (calibration_encode k0),
      2 := highByte (calibration_encode k1), 3 := lowByte (calibration_encode k1),
      4 := highByte (calibration_encode k2), 5 := lowByte (calibration_encode k2),
      6 := highByte (calibration_encode k3), 7 := lowByte (calibration_encode k3),
      8 := threshold_encode h0, 9 := threshold_encode h1,
      10 := threshold_encode l0, 11 := threshold_encode l1)"
  unfolding EEPROM_Update_def upt_0_4
  by (simp add: EEPROM_update_def Let_def)

lemma Update_keeps:
  "Vcalibration (EEPROM_Update s) = Vcalibration s"
  "Vmax (EEPROM_Update s) = Vmax s"
  "Vmin (EEPROM_Update s) = Vmin s"
  by (simp_all add: EEPROM_Update_def EEPROM_update_def Let_def
      fold_frame [where g = Vcalibration] fold_frame [where g = Vmax]
      fold_frame [where g = Vmin])

lemma Get_values:
  "length (Vcalibration s) = 4 \<Longrightarrow> length (Vmax s) = 2 \<Longrightarrow> length (Vmin s) = 2 \<Longrightarrow>
   Vcalibration (EEPROM_Get s) =
     [calibration_decode (eeprom s 0) (eeprom s 1), calibration_decode (eeprom s 2) (eeprom s 3),
      calibration_decode (eeprom s 4) (eeprom s 5), calibration_decode (eeprom s 6) (eeprom s 7)]
   \<and> Vmax (EEPROM_Get s) = [threshold_decode (eeprom s 8), threshold_decode (eeprom s 9)]
   \<and> Vmin (EEPROM_Get s) = [threshold_decode (eeprom s 10), threshold_decode (eeprom s 11)]"
  unfolding EEPROM_Get_def upt_0_4
  by (auto simp: EEPROM_read_def Let_def length_Suc_conv eval_nat_numeral)

lemma store_then_load:
  assumes "Vcalibration s = [k0, k1, k2, k3]" "Vmax s = [h0, h1]" "Vmin s = [l0, l1]"
  shows "Vcalibration (EEPROM_Get (EEPROM_Update s)) =
      map (\<lambda>x. calibration_decode (highByte (calibration_encode x)) (lowByte (calibration_encode x)))
        [k0, k1, k2, k3]
    \<and> Vmax (EEPROM_Get (EEPROM_Update s)) = map (\<lambda>v. threshold_decode (threshold_encode v)) [h0, h1]
    \<and> Vmin (EEPROM_Get (EEPROM_Update s)) = map (\<lambda>v. threshold_decode (threshold_encode v)) [l0, l1]"
  using Get_values [of "EEPROM_Update s"] assms
  by (simp add: Update_keeps Update_eeprom [OF assms])

text \<open>
  Claim C5 says that storing and loading gives back every calibration factor in
  [0.800, 1.200] within 0.001 and every threshold in [2.70, 4.60] within 0.01 V. A
  threshold is stored as the byte \<open>v * 100 - 300\<close>, and every byte loads as a voltage of
  at least 3.00 V (\<open>threshold_decode_ge\<close>): 2.70 V is stored as the low byte of -30, 226,
  and loaded as 5.26 V.
\<close>

theorem threshold_below_3_lost:
  "threshold_decode (threshold_encode 2.7) = 5.26
   \<and> \<not> \<bar>threshold_decode (threshold_encode 2.7) - 2.7\<bar> \<le> 0.01"
  by (simp add: threshold_decode_def threshold_encode_def float_to_byte_def c_trunc_def)

text \<open>
  Claim C5 as amended: \<open>EEPROM_Update\<close> followed by \<open>EEPROM_Get\<close> replaces every
  calibration factor \<open>x\<close> by the value decoded from its two bytes and every threshold
  \<open>v\<close> by the value decoded from its byte; for \<open>x\<close> in [0.800, 1.200] the result is
  within 0.001 of \<open>x\<close>, and for \<open>v\<close> in [3.00, 4.60] within 0.01 of \<open>v\<close>.
\<close>

theorem store_round_trip:
  "(0.8 \<le> x \<and> x \<le> 1.2 \<longrightarrow>
      \<bar>calibration_decode (highByte (calibration_encode x)) (lowByte (calibration_encode x)) - x\<bar>
        < 0.001)
   \<and> (3 \<le> v \<and> v \<le> 4.6 \<longrightarrow> \<bar>threshold_decode (threshold_encode v) - v\<bar> < 0.01)
   \<and> (Vcalibration s = [k0, k1, k2, k3] \<and> Vmax s = [h0, h1] \<and> Vmin s = [l0, l1] \<longrightarrow>
        Vcalibration (EEPROM_Get (EEPROM_Update s)) =
          map (\<lambda>x. calibration_decode (highByte (calibration_encode x))
                 (lowByte (calibration_encode x))) [k0, k1, k2, k3]
        \<and> Vmax (EEPROM_Get (EEPROM_Update s)) =
            map (\<lambda>v. threshold_decode (threshold_encode v)) [h0, h1]
        \<and> Vmin (EEPROM_Get (EEPROM_Update s)) =
            map (\<lambda>v. threshold_decode (threshold_encode v)) [l0, l1])"
proof -
  have "\<bar>calibration_decode (highByte (calibration_encode x)) (lowByte (calibration_encode x)) - x\<bar>
        < 0.001" if x: "0.8 \<le> x \<and> x \<le> 1.2"
  proof -
    have "\<bar>real_of_int \<lfloor>1000 * x\<rfloor> / 1000 - (1000 * x) / 1000\<bar> < 1 / 1000"
      by (rule floor_within) simp
    then show ?thesis
      using x by (simp add: calibration_round_trip_value)
  qed
  moreover have "\<bar>threshold_decode (threshold_encode v) - v\<bar> < 0.01" if v: "3 \<le> v \<and> v \<le> 4.6"
  proof -
    have "\<bar>real_of_int \<lfloor>v * 100 - 300\<rfloor> / 100 - (v * 100 - 300) / 100\<bar> < 1 / 100"
      by (rule floor_within) simp
    then show ?thesis
      using v by (simp add: threshold_round_trip_value add_divide_distrib diff_divide_distrib)
  qed
  ultimately show ?thesis
    using store_then_load [of s k0 k1 k2 k3 h0 h1 l0 l1] by blast
qed

theorem store_round_trip_witness:
  "\<bar>calibration_decode (highByte (calibration_encode 1.0005))
        (lowByte (calibration_encode 1.0005)) - 1.0005\<bar> < 0.001
   \<and> \<bar>threshold_decode (threshold_encode 4.205) - 4.205\<bar> < 0.01
   \<and> Vcalibration (EEPROM_Get (EEPROM_Update (power_on saved_defaults))) =
        map (\<lambda>x. calibration_decode (highByte (calibration_encode x))
               (lowByte (calibration_encode x))) [1, 1, 1, 1]
   \<and> Vmax (EEPROM_Get (EEPROM_Update (power_on saved_defaults))) =
        map (\<lambda>v. threshold_decode (threshold_encode v)) [4.2, 3.7]
   \<and> Vmin (EEPROM_Get (EEPROM_Update (power_on saved_defaults))) =
        map (\<lambda>v. threshold_decode (threshold_encode v)) [3.6, 3.2]"
  using store_round_trip [of "1.0005" "4.205" "power_on saved_defaults" 1 1 1 1
      "4.2" "3.7" "3.6" "3.2"]
  by (simp add: power_on_def)

section \<open>Console input buffer\<close>

lemma command_index: "command s = Inr s' \<Longrightarrow> index s' = index s"
  by (auto simp: command_def command_B_def command_L_def command_H_def println_def Let_def
      EEPROM_Get_def EEPROM_Update_def EEPROM_update_def fold_frame [where g = index]
      split: if_splits)

lemma command_no_overrun: "command s \<noteq> Inl ConsoleInputOverrun"
  by (auto simp: command_def command_B_def Let_def split: if_splits)

lemma serialEvents_append:
  "serialEvents (xs @ ys) s =
     (case serialEvents xs s of Inl f \<Rightarrow> Inl f | Inr t \<Rightarrow> serialEvents ys t)"
  by (induction xs arbitrary: s) (auto split: sum.splits)

lemma byte_suc: "unat (i::byte) < 7 \<Longrightarrow> unat (i + 1) = Suc (unat i)"
  by (simp add: unat_word_ariths)

lemma serialEvent_char:
  "c \<noteq> newline \<Longrightarrow> unat (index s) < 7 \<Longrightarrow>
   \<exists>t. serialEvent (Some c) s = Inr t \<and> unat (index t) = Suc (unat (index s))"
  by (simp add: serialEvent_def byte_suc)

lemma serialEvent_newline:
  "unat (index s) < 7 \<Longrightarrow>
   serialEvent (Some newline) s \<noteq> Inl ConsoleInputOverrun
   \<and> (\<forall>t. serialEvent (Some newline) s = Inr t \<longrightarrow> index t = 0)"
  by (auto simp: serialEvent_def command_no_overrun dest: command_index)

lemma serialEvent_overrun:
  "\<not> unat (index s) < 7 \<Longrightarrow> serialEvent (Some c) s = Inl ConsoleInputOverrun"
  by (simp add: serialEvent_def)

lemma console_run:
  assumes "index s = 0"
    and "\<forall>ys zs. cs = ys @ zs \<longrightarrow> length (takeWhile (\<lambda>c. c \<noteq> newline) (rev ys)) \<le> 6"
  shows "serialEvents cs s \<noteq> Inl ConsoleInputOverrun
     \<and> (\<forall>t. serialEvents cs s = Inr t \<longrightarrow>
           unat (index t) = length (takeWhile (\<lambda>c. c \<noteq> newline) (rev cs)))"
  using assms(2)
proof (induction cs rule: rev_induct)
  case Nil
  show ?case using assms(1) by simp
next
  case (snoc c cs)
  have pre: "\<forall>ys zs. cs = ys @ zs \<longrightarrow> length (takeWhile (\<lambda>c. c \<noteq> newline) (rev ys)) \<le> 6"
  proof (intro allI impI)
    fix ys zs assume "cs = ys @ zs"
    then have "cs @ [c] = ys @ (zs @ [c])" by simp
    then show "length (takeWhile (\<lambda>c. c \<noteq> newline) (rev ys)) \<le> 6"
      using snoc.prems by blast
  qed
  note IH = snoc.IH [OF pre]
  have here: "length (takeWhile (\<lambda>c. c \<noteq> newline) (rev cs)) \<le> 6"
    using pre by (metis append_Nil2)
  have full: "length (takeWhile (\<lambda>c. c \<noteq> newline) (rev (cs @ [c]))) \<le> 6"
    using snoc.prems by (metis append_Nil2)
  show ?case
  proof (cases "serialEvents cs s")
    case (Inl f)
    then show ?thesis using IH by (simp add: serialEvents_append)
  next
    case (Inr t)
    then have t: "unat (index t) = length (takeWhile (\<lambda>c. c \<noteq> newline) (rev cs))"
      using IH by simp
    have step: "serialEvents (cs @ [c]) s = serialEvent (Some c) t"
      using Inr by (simp add: serialEvents_append split: sum.splits)
    show ?thesis
    proof (cases "c = newline")
      case True
      have "unat (index t) < 7" using t here by simp
      then show ?thesis
        using serialEvent_newline [of t] True step by simp
    next
      case False
      then have "unat (index t) < 6" using t full by simp
      then have "unat (index t) < 7" by simp
      from serialEvent_char [OF False this] show ?thesis
        using step t False by auto
    qed
  qed
qed

lemma chars_run:
  "\<forall>c\<in>set line. c \<noteq> newline \<Longrightarrow> unat (index s) + length line \<le> 7 \<Longrightarrow>
   \<exists>t. serialEvents line s = Inr t \<and> unat (index t) = unat (index s) + length line"
proof (induction line arbitrary: s)
  case Nil
  then show ?case by simp
next
  case (Cons c line)
  then have "c \<noteq> newline" "unat (index s) < 7" by simp_all
  from serialEvent_char [OF this] obtain t
    where t: "serialEvent (Some c) s = Inr t" "unat (index t) = Suc (unat (index s))" by blast
  have "\<exists>u. serialEvents line t = Inr u \<and> unat (index u) = unat (index t) + length line"
    using Cons.prems t(2) by (intro Cons.IH) simp_all
  then show ?case using t by auto
qed

lemma long_line_overruns:
  assumes "\<forall>c\<in>set line. c \<noteq> newline" "7 \<le> length line" "index s = 0"
  shows "serialEvents (line @ [newline]) s = Inl ConsoleInputOverrun"
proof -
  have "\<forall>c\<in>set (take 7 line). c \<noteq> newline"
    using assms(1) by (meson in_set_takeD)
  from chars_run [OF this, of s] assms(2,3) obtain t
    where t: "serialEvents (take 7 line) s = Inr t" "unat (index t) = 7" by auto
  obtain c cs where more: "drop 7 line @ [newline] = c # cs"
    by (cases "drop 7 line @ [newline]") simp_all
  have "serialEvents (c # cs) t = Inl ConsoleInputOverrun"
    using t(2) by (simp add: serialEvent_overrun)
  moreover have "line @ [newline] = take 7 line @ (c # cs)"
    using more by (metis append_assoc append_take_drop_id)
  ultimately show ?thesis
    using t(1) by (simp only: serialEvents_append sum.case)
qed

lemma takeWhile_stop: "\<not> P y \<Longrightarrow> takeWhile P (xs @ y # zs) = takeWhile P xs"
  by (induction xs) simp_all

lemma lines_fit:
  assumes "\<forall>l\<in>set (rest # ls). length l \<le> 6 \<and> newline \<notin> set l"
    and "concat (map (\<lambda>l. l @ [newline]) ls) @ rest = ys @ zs"
  shows "length (takeWhile (\<lambda>c. c \<noteq> newline) (rev ys)) \<le> 6"
  using assms
proof (induction ls arbitrary: ys)
  case Nil
  then have "length ys \<le> 6"
    by (metis append_Nil concat.simps(1) le_add1 le_trans length_append list.set_intros(1)
        list.simps(8))
  moreover have "length (takeWhile (\<lambda>c. c \<noteq> newline) (rev ys)) \<le> length (rev ys)"
    by (rule length_takeWhile_le)
  ultimately show ?case by simp
next
  case (Cons l ls)
  let ?tail = "concat (map (\<lambda>l. l @ [newline]) ls) @ rest"
  from Cons.prems(2) have eq: "l @ (newline # ?tail) = ys @ zs" by simp
  then consider us where "ys = l @ us" "us @ zs = newline # ?tail"
    | us where "ys @ us = l" "zs = us @ newline # ?tail"
    by (auto simp: append_eq_append_conv2)
  then show ?case
  proof cases
    case 1
    show ?thesis
    proof (cases us)
      case Nil
      then have "length ys \<le> 6" using 1 Cons.prems(1) by simp
      moreover have "length (takeWhile (\<lambda>c. c \<noteq> newline) (rev ys)) \<le> length (rev ys)"
        by (rule length_takeWhile_le)
      ultimately show ?thesis by simp
    next
      case (Cons c vs)
      with 1 have c: "c = newline" and vs: "?tail = vs @ zs" by simp_all
      have "length (takeWhile (\<lambda>c. c \<noteq> newline) (rev vs)) \<le> 6"
        using Cons.prems(1) vs by (intro Cons.IH) simp_all
      moreover have "rev ys = rev vs @ newline # rev l"
        using 1 Cons c by simp
      ultimately show ?thesis by (simp add: takeWhile_stop)
    qed
  next
    case 2
    then have "length ys \<le> length l" by (metis le_add1 length_append)
    moreover have "length l \<le> 6" using Cons.prems(1) by simp
    moreover have "length (takeWhile (\<lambda>c. c \<noteq> newline) (rev ys)) \<le> length (rev ys)"
      by (rule length_takeWhile_le)
    ultimately show ?thesis by simp
  qed
qed


text \<open>
  Claim C10: from a state with \<open>index\<close> 0, on a stream of lines of at most six
  characters, each closed by a newline, followed by at most six more characters,
  \<open>serialEvent\<close> never writes outside \<open>consoleInput\<close> and \<open>index\<close> stays within 0..6 at
  every point of the stream. The bound is sharp: a line of seven characters or more,
  closed by a newline, makes a write fall outside the array.
\<close>

theorem console_buffer_in_bounds:
  "index s = 0 \<Longrightarrow> \<forall>l\<in>set (rest # ls). length l \<le> 6 \<and> newline \<notin> set l \<Longrightarrow>
   (\<forall>ys zs. concat (map (\<lambda>l. l @ [newline]) ls) @ rest = ys @ zs \<longrightarrow>
       serialEvents ys s \<noteq> Inl ConsoleInputOverrun
       \<and> (\<forall>t. serialEvents ys s = Inr t \<longrightarrow> unat (index t) \<le> 6))
   \<and> (\<forall>line. newline \<notin> set line \<and> 7 \<le> length line \<longrightarrow>
         serialEvents (line @ [newline]) s = Inl ConsoleInputOverrun)"
proof -
  assume s: "index s = 0"
    and fit: "\<forall>l\<in>set (rest # ls). length l \<le> 6 \<and> newline \<notin> set l"
  have prefixes: "serialEvents ys s \<noteq> Inl ConsoleInputOverrun
       \<and> (\<forall>t. serialEvents ys s = Inr t \<longrightarrow> unat (index t) \<le> 6)"
    if split: "concat (map (\<lambda>l. l @ [newline]) ls) @ rest = ys @ zs" for ys zs
  proof -
    have pre: "\<forall>us vs. ys = us @ vs \<longrightarrow> length (takeWhile (\<lambda>c. c \<noteq> newline) (rev us)) \<le> 6"
    proof (intro allI impI)
      fix us vs assume "ys = us @ vs"
      then have "concat (map (\<lambda>l. l @ [newline]) ls) @ rest = us @ (vs @ zs)"
        using split by simp
      with fit show "length (takeWhile (\<lambda>c. c \<noteq> newline) (rev us)) \<le> 6"
        by (rule lines_fit)
    qed
    have here: "length (takeWhile (\<lambda>c. c \<noteq> newline) (rev ys)) \<le> 6"
      using fit split by (rule lines_fit)
    from console_run [OF s pre] show ?thesis
      using here by simp
  qed
  have long: "serialEvents (line @ [newline]) s = Inl ConsoleInputOverrun"
    if "newline \<notin> set line \<and> 7 \<le> length line" for line
    using that s by (intro long_line_overruns) auto
  from prefixes long show ?thesis by blast
qed

theorem console_buffer_in_bounds_witness:
  "serialEvents (ascii ''HT415'' @ [newline] @ ascii ''LT330'' @ [newline] @ ascii ''S'')
      (power_on saved_defaults) \<noteq> Inl ConsoleInputOverrun
   \<and> serialEvents (ascii ''B1 1000'' @ [newline]) (power_on saved_defaults)
      = Inl ConsoleInputOverrun"
proof -
  have start: "index (power_on saved_defaults) = 0"
    by (simp add: power_on_def)
  have fit: "\<forall>l\<in>set (ascii ''S'' # [ascii ''HT415'', ascii ''LT330'']).
      length l \<le> 6 \<and> newline \<notin> set l"
    by (simp add: ascii_def newline_def)
  note both = console_buffer_in_bounds [OF start fit]
  have "concat (map (\<lambda>l. l @ [newline]) [ascii ''HT415'', ascii ''LT330'']) @ ascii ''S''
      = (ascii ''HT415'' @ [newline] @ ascii ''LT330'' @ [newline] @ ascii ''S'') @ []"
    by simp
  with both have "serialEvents (ascii ''HT415'' @ [newline] @ ascii ''LT330'' @ [newline] @ ascii ''S'')
      (power_on saved_defaults) \<noteq> Inl ConsoleInputOverrun"
    by blast
  moreover have "newline \<notin> set (ascii ''B1 1000'') \<and> 7 \<le> length (ascii ''B1 1000'')"
    by (simp add: ascii_def newline_def)
  with both have "serialEvents (ascii ''B1 1000'' @ [newline]) (power_on saved_defaults)
      = Inl ConsoleInputOverrun"
    by blast
  ultimately show ?thesis by simp
qed

section \<open>Console commands\<close>

lemma val_display:
  "val4 (s\<lparr>whatToDisplay := d\<rparr>) = val4 s"
  "val3 (s\<lparr>whatToDisplay := d\<rparr>) = val3 s"
  by (simp_all add: val4_def val3_def digit_def)



text \<open>The states \<open>typed\<close> are those in which the \<open>switch\<close> runs on these lines after \<open>setup\<close>.\<close>

lemma booted_console: "index booted = 0" "consoleInput booted = [0, 0, 0, 0, 0, 0, 0]"
  by code_simp+

lemma index_reset: "index s = 0 \<Longrightarrow> s\<lparr>index := 0\<rparr> = s"
  by (cases s) simp

lemma serialEvents_end: "(case x of Inl f \<Rightarrow> Inl f | Inr t \<Rightarrow> serialEvents [] t) = x"
  by (cases x) simp_all

lemma replicate_2: "replicate 2 x = [x, x]"
  by (simp add: numeral_2_eq_2)

lemma typed_lines:
  "serialEvents (ascii ''B11300'' @ [newline]) booted = command (typed ''B11300'')"
  "serialEvents (ascii ''B21010'' @ [newline]) booted = command (typed ''B21010'')"
  "serialEvents (ascii ''LT330'' @ [newline]) booted = command (typed ''LT330'')"
  "serialEvents (ascii ''HF365'' @ [newline]) booted = command (typed ''HF365'')"
  by (simp_all add: ascii_def newline_def serialEvent_def typed_def booted_console
      index_reset replicate_2 serialEvents_end)




lemma command_L_cases:
  "is_char (consoleInput s ! 0) CHR ''l'' \<or> is_char (consoleInput s ! 0) CHR ''L'' \<Longrightarrow>
   command s = Inr (command_L s)"
  by (auto simp: command_def Let_def is_char_def)

lemma command_H_cases:
  "is_char (consoleInput s ! 0) CHR ''h'' \<or> is_char (consoleInput s ! 0) CHR ''H'' \<Longrightarrow>
   command s = Inr (command_H s)"
  by (auto simp: command_def Let_def is_char_def)

lemma command_L_thresholds:
  "Vmax (command_L s) = Vmax s"
  "Vmin (command_L s) =
     (if sint (val3 s) < 270 \<or> 460 < sint (val3 s) then Vmin s
      else if is_char (consoleInput s ! 1) CHR ''t'' \<or> is_char (consoleInput s ! 1) CHR ''T''
      then (Vmin s)[0 := real_of_int (sint (val3 s)) / 100]
      else if is_char (consoleInput s ! 1) CHR ''f'' \<or> is_char (consoleInput s ! 1) CHR ''F''
      then (Vmin s)[1 := real_of_int (sint (val3 s)) / 100]
      else Vmin s)"
  by (simp_all add: command_L_def Let_def val_display println_def)

lemma command_H_thresholds:
  "Vmin (command_H s) = Vmin s"
  "Vmax (command_H s) =
     (if sint (val3 s) < 270 \<or> 460 < sint (val3 s) then Vmax s
      else if is_char (consoleInput s ! 1) CHR ''t'' \<or> is_char (consoleInput s ! 1) CHR ''T''
      then (Vmax s)[0 := real_of_int (sint (val3 s)) / 100]
      else if is_char (consoleInput s ! 1) CHR ''f'' \<or> is_char (consoleInput s ! 1) CHR ''F''
      then (Vmax s)[1 := real_of_int (sint (val3 s)) / 100]
      else Vmax s)"
  by (simp_all add: command_H_def Let_def val_display println_def)

lemma update_in_range:
  "\<forall>v\<in>set xs. lo \<le> v \<and> v \<le> hi \<Longrightarrow> lo \<le> x \<and> x \<le> hi \<Longrightarrow>
   \<forall>v\<in>set (xs[i := x]). lo \<le> v \<and> v \<le> (hi::real)"
  using set_update_subset_insert [of xs i x] by auto

lemma accepted_in_range:
  "\<not> (sint (w::cint) < 270 \<or> 460 < sint w) \<Longrightarrow>
   2.7 \<le> real_of_int (sint w) / 100 \<and> real_of_int (sint w) / 100 \<le> 4.6"
  by (simp del: of_int_sint)

lemma command_L_range:
  assumes "\<forall>v\<in>set (Vmin s). 2.7 \<le> v \<and> v \<le> 4.6"
  shows "\<forall>v\<in>set (Vmin (command_L s)). 2.7 \<le> v \<and> v \<le> 4.6"
proof (cases "sint (val3 s) < 270 \<or> 460 < sint (val3 s)")
  case True
  then show ?thesis using assms by (simp add: command_L_thresholds)
next
  case False
  define x where "x = real_of_int (sint (val3 s)) / 100"
  have x: "2.7 \<le> x \<and> x \<le> 4.6"
    unfolding x_def using False by (rule accepted_in_range)
  have "Vmin (command_L s) = Vmin s \<or> Vmin (command_L s) = (Vmin s)[0 := x]
      \<or> Vmin (command_L s) = (Vmin s)[1 := x]"
    by (simp add: command_L_thresholds x_def)
  then show ?thesis
    using assms update_in_range [OF assms x, of 0] update_in_range [OF assms x, of 1]
    by (elim disjE) (simp_all only:)
qed

lemma command_H_range:
  assumes "\<forall>v\<in>set (Vmax s). 2.7 \<le> v \<and> v \<le> 4.6"
  shows "\<forall>v\<in>set (Vmax (command_H s)). 2.7 \<le> v \<and> v \<le> 4.6"
proof (cases "sint (val3 s) < 270 \<or> 460 < sint (val3 s)")
  case True
  then show ?thesis using assms by (simp add: command_H_thresholds)
next
  case False
  define x where "x = real_of_int (sint (val3 s)) / 100"
  have x: "2.7 \<le> x \<and> x \<le> 4.6"
    unfolding x_def using False by (rule accepted_in_range)
  have "Vmax (command_H s) = Vmax s \<or> Vmax (command_H s) = (Vmax s)[0 := x]
      \<or> Vmax (command_H s) = (Vmax s)[1 := x]"
    by (simp add: command_H_thresholds x_def)
  then show ?thesis
    using assms update_in_range [OF assms x, of 0] update_in_range [OF assms x, of 1]
    by (elim disjE) (simp_all only:)
qed


text \<open>
  Claim C6 says that \<open>Vmin < Vmax\<close> is preserved by the \<open>'L'\<close> and \<open>'H'\<close> commands. The
  commands check the value against 270..460 and never against the other threshold:
  after \<open>setup\<close>, the line \<open>LT450\<close> sets the Li-ion \<open>Vmin\<close> to 4.5 V, above \<open>Vmax\<close> = 4.2 V.
\<close>

theorem threshold_commands_counterexample:
  "Vmin booted ! 0 < Vmax booted ! 0
   \<and> (case serialEvents (ascii ''LT450'' @ [newline]) booted of
         Inl f \<Rightarrow> False
       | Inr t \<Rightarrow> Vmin t ! 0 = 4.5 \<and> Vmax t ! 0 = 4.2 \<and> \<not> Vmin t ! 0 < Vmax t ! 0)"
  by code_simp


text \<open>
  Claim C6 as amended: \<open>Vmin < Vmax\<close> holds for the initial values of both profiles. An
  \<open>'L'\<close> command leaves \<open>Vmax\<close> alone and stores its value, over 100, in the \<open>Vmin\<close> of
  the profile named by the second character (\<open>T\<close>: Li-ion, \<open>F\<close>: LiFePO4) when the value
  is within 270..460, and changes no threshold otherwise; an \<open>'H'\<close> command does the same
  to \<open>Vmax\<close>. So thresholds within [2.70, 4.60] V stay within it, and no command compares
  \<open>Vmin\<close> with \<open>Vmax\<close>.
\<close>

theorem threshold_commands:
  "Vmin (power_on rom) ! 0 < Vmax (power_on rom) ! 0
   \<and> Vmin (power_on rom) ! 1 < Vmax (power_on rom) ! 1
   \<and> (is_char (consoleInput l ! 0) CHR ''l'' \<or> is_char (consoleInput l ! 0) CHR ''L'' \<longrightarrow>
        (\<exists>t. command l = Inr t \<and> Vmax t = Vmax l
           \<and> Vmin t =
             (if sint (val3 l) < 270 \<or> 460 < sint (val3 l) then Vmin l
              else if is_char (consoleInput l ! 1) CHR ''t'' \<or> is_char (consoleInput l ! 1) CHR ''T''
              then (Vmin l)[0 := real_of_int (sint (val3 l)) / 100]
              else if is_char (consoleInput l ! 1) CHR ''f'' \<or> is_char (consoleInput l ! 1) CHR ''F''
              then (Vmin l)[1 := real_of_int (sint (val3 l)) / 100]
              else Vmin l)
           \<and> ((\<forall>v\<in>set (Vmin l). 2.7 \<le> v \<and> v \<le> 4.6) \<longrightarrow>
                (\<forall>v\<in>set (Vmin t). 2.7 \<le> v \<and> v \<le> 4.6))))
   \<and> (is_char (consoleInput h ! 0) CHR ''h'' \<or> is_char (consoleInput h ! 0) CHR ''H'' \<longrightarrow>
        (\<exists>t. command h = Inr t \<and> Vmin t = Vmin h
           \<and> Vmax t =
             (if sint (val3 h) < 270 \<or> 460 < sint (val3 h) then Vmax h
              else if is_char (consoleInput h ! 1) CHR ''t'' \<or> is_char (consoleInput h ! 1) CHR ''T''
              then (Vmax h)[0 := real_of_int (sint (val3 h)) / 100]
              else if is_char (consoleInput h ! 1) CHR ''f'' \<or> is_char (consoleInput h ! 1) CHR ''F''
              then (Vmax h)[1 := real_of_int (sint (val3 h)) / 100]
              else Vmax h)
           \<and> ((\<forall>v\<in>set (Vmax h). 2.7 \<le> v \<and> v \<le> 4.6) \<longrightarrow>
                (\<forall>v\<in>set (Vmax t). 2.7 \<le> v \<and> v \<le> 4.6))))"
proof -
  have "Vmin (power_on rom) ! 0 < Vmax (power_on rom) ! 0"
    "Vmin (power_on rom) ! 1 < Vmax (power_on rom) ! 1"
    by (simp_all add: power_on_def)
  moreover have "\<exists>t. command l = Inr t \<and> Vmax t = Vmax l
           \<and> Vmin t =
             (if sint (val3 l) < 270 \<or> 460 < sint (val3 l) then Vmin l
              else if is_char (consoleInput l ! 1) CHR ''t'' \<or> is_char (consoleInput l ! 1) CHR ''T''
              then (Vmin l)[0 := real_of_int (sint (val3 l)) / 100]
              else if is_char (consoleInput l ! 1) CHR ''f'' \<or> is_char (consoleInput l ! 1) CHR ''F''
              then (Vmin l)[1 := real_of_int (sint (val3 l)) / 100]
              else Vmin l)
           \<and> ((\<forall>v\<in>set (Vmin l). 2.7 \<le> v \<and> v \<le> 4.6) \<longrightarrow>
                (\<forall>v\<in>set (Vmin t). 2.7 \<le> v \<and> v \<le> 4.6))"
    if "is_char (consoleInput l ! 0) CHR ''l'' \<or> is_char (consoleInput l ! 0) CHR ''L''"
    using command_L_cases [OF that] command_L_thresholds [of l] command_L_range [of l]
    by blast
  moreover have "\<exists>t. command h = Inr t \<and> Vmin t = Vmin h
           \<and> Vmax t =
             (if sint (val3 h) < 270 \<or> 460 < sint (val3 h) then Vmax h
              else if is_char (consoleInput h ! 1) CHR ''t'' \<or> is_char (consoleInput h ! 1) CHR ''T''
              then (Vmax h)[0 := real_of_int (sint (val3 h)) / 100]
              else if is_char (consoleInput h ! 1) CHR ''f'' \<or> is_char (consoleInput h ! 1) CHR ''F''
              then (Vmax h)[1 := real_of_int (sint (val3 h)) / 100]
              else Vmax h)
           \<and> ((\<forall>v\<in>set (Vmax h). 2.7 \<le> v \<and> v \<le> 4.6) \<longrightarrow>
                (\<forall>v\<in>set (Vmax t). 2.7 \<le> v \<and> v \<le> 4.6))"
    if "is_char (consoleInput h ! 0) CHR ''h'' \<or> is_char (consoleInput h ! 0) CHR ''H''"
    using command_H_cases [OF that] command_H_thresholds [of h] command_H_range [of h]
    by blast
  ultimately show ?thesis by blast
qed

theorem threshold_commands_witness:
  "Vmin (typed ''LT330'') = [3.6, 3.2] \<and> Vmax (typed ''HF365'') = [4.2, 3.7]
   \<and> (\<exists>t. command (typed ''LT330'') = Inr t \<and> Vmin t = [3.3, 3.2] \<and> Vmax t = [4.2, 3.7])
   \<and> (\<exists>t. command (typed ''HF365'') = Inr t \<and> Vmin t = [3.6, 3.2] \<and> Vmax t = [4.2, 3.65])"
proof -
  have l: "is_char (consoleInput (typed ''LT330'') ! 0) CHR ''L''"
    "is_char (consoleInput (typed ''LT330'') ! 1) CHR ''T''"
    "sint (val3 (typed ''LT330'')) = 330"
    "Vmin (typed ''LT330'') = [3.6, 3.2]" "Vmax (typed ''LT330'') = [4.2, 3.7]"
    by code_simp+
  have h: "is_char (consoleInput (typed ''HF365'') ! 0) CHR ''H''"
    "\<not> is_char (consoleInput (typed ''HF365'') ! 1) CHR ''t''"
    "\<not> is_char (consoleInput (typed ''HF365'') ! 1) CHR ''T''"
    "is_char (consoleInput (typed ''HF365'') ! 1) CHR ''F''"
    "sint (val3 (typed ''HF365'')) = 365"
    "Vmin (typed ''HF365'') = [3.6, 3.2]" "Vmax (typed ''HF365'') = [4.2, 3.7]"
    by code_simp+
  show ?thesis
    using threshold_commands [of saved_defaults "typed ''LT330''" "typed ''HF365''"] l h
    by auto
qed

end
